theory Spec2Isabelle
  imports Main
begin

section \<open>C strings and the C library functions the parser uses\<close>

text \<open>
  A C string is modelled as a \<^typ>\<open>string\<close> (the bytes before the terminating NUL).
  A \<open>char *\<close> that may be \<open>NULL\<close> is a \<^typ>\<open>string option\<close>. A pointer into a string is
  its offset from the start of that string, so \<open>strchr\<close> and \<open>strstr\<close> return
  \<^typ>\<open>nat option\<close> and the text from a pointer on is \<^term>\<open>drop i s\<close>.
  Allocation is assumed to succeed (\<open>malloc\<close>, \<open>realloc\<close> and \<open>strdup\<close> never return
  \<open>NULL\<close>), and the classification functions of \<open>ctype.h\<close> are those of the C locale.
\<close>

definition isspace :: "char \<Rightarrow> bool" where
  "isspace c = (c = CHR '' '' \<or> c = CHR 0x09 \<or> c = CHR 0x0A \<or> c = CHR 0x0B \<or>
                c = CHR 0x0C \<or> c = CHR 0x0D)"

definition isalnum :: "char \<Rightarrow> bool" where
  "isalnum c = (let n = (of_char c :: nat)
                in (48 \<le> n \<and> n \<le> 57) \<or> (65 \<le> n \<and> n \<le> 90) \<or> (97 \<le> n \<and> n \<le> 122))"

definition tolower :: "char \<Rightarrow> char" where
  "tolower c = (case map_of (zip ''ABCDEFGHIJKLMNOPQRSTUVWXYZ'' ''abcdefghijklmnopqrstuvwxyz'') c of
                  Some l \<Rightarrow> l
                | None \<Rightarrow> c)"

text \<open>\<open>strchr(s, c)\<close>: the offset of the first \<open>c\<close> in \<open>s\<close>, \<open>NULL\<close> when there is none.\<close>

fun strchr :: "string \<Rightarrow> char \<Rightarrow> nat option" where
  "strchr [] c = None"
| "strchr (x # xs) c = (if x = c then Some 0 else map_option Suc (strchr xs c))"

text \<open>\<open>strncmp(s, p, strlen(p)) == 0\<close>: \<open>s\<close> begins with \<open>p\<close>.\<close>

definition strncmp_prefix :: "string \<Rightarrow> string \<Rightarrow> bool" where
  "strncmp_prefix s p = (take (length p) s = p)"

text \<open>\<open>strncasecmp(s, p, strlen(p)) == 0\<close> for a lower-case \<open>p\<close>.\<close>

definition strncasecmp_prefix :: "string \<Rightarrow> string \<Rightarrow> bool" where
  "strncasecmp_prefix s p = (map tolower (take (length p) s) = map tolower p)"

text \<open>\<open>strstr(s, p)\<close>: the offset of the first occurrence of \<open>p\<close> in \<open>s\<close>.\<close>

fun strstr :: "string \<Rightarrow> string \<Rightarrow> nat option" where
  "strstr [] p = (if p = [] then Some 0 else None)"
| "strstr (x # xs) p =
     (if strncmp_prefix (x # xs) p then Some 0 else map_option Suc (strstr xs p))"

text \<open>The loop \<open>while (isspace(*p)) p++;\<close>.\<close>

definition skip_spaces :: "string \<Rightarrow> string" where
  "skip_spaces s = dropWhile isspace s"

text \<open>The loop \<open>while (*p && !isspace(*p)) p++;\<close> returns the token it walks over.\<close>

definition token :: "string \<Rightarrow> string" where
  "token s = takeWhile (\<lambda>c. \<not> isspace c) s"

text \<open>The loop \<open>while (end > start && isspace(end[-1])) end--;\<close>.\<close>

definition drop_trailing_spaces :: "string \<Rightarrow> string" where
  "drop_trailing_spaces s = rev (dropWhile isspace (rev s))"

text \<open>\<open>string_concat\<close> of \<open>utils/string.c\<close>: a \<open>NULL\<close> argument yields a copy of the other.\<close>

fun string_concat :: "string option \<Rightarrow> string option \<Rightarrow> string option" where
  "string_concat None s2 = s2"
| "string_concat (Some s1) None = Some s1"
| "string_concat (Some s1) (Some s2) = Some (s1 @ s2)"

subsection \<open>Reading lines\<close>

text \<open>
  An open \<open>FILE *\<close> is the text still to be read; \<open>ftell\<close> reads that value and
  \<open>fseek(f, pos, SEEK_SET)\<close> puts a saved one back. \<open>fgets(buf, n, f)\<close> returns \<open>NULL\<close> at
  the end of the file and otherwise reads up to and including the next newline, at most
  \<open>n - 1\<close> bytes. The buffer is then used as a C string, which ends at its first NUL byte.
\<close>

definition MAX_LINE_LENGTH :: nat where
  "MAX_LINE_LENGTH = 4096"

fun fgets_take :: "nat \<Rightarrow> string \<Rightarrow> string" where
  "fgets_take k [] = []"
| "fgets_take k (c # cs) =
     (if k = 0 then [] else if c = CHR 0x0A then [c] else c # fgets_take (k - 1) cs)"

definition fgets :: "nat \<Rightarrow> string \<Rightarrow> (string \<times> string) option" where
  "fgets n f = (if f = [] then None
                else let buf = fgets_take (n - 1) f in Some (buf, drop (length buf) f))"

definition c_str :: "string \<Rightarrow> string" where
  "c_str buf = takeWhile (\<lambda>c. c \<noteq> CHR 0x00) buf"

text \<open>\<open>len = strlen(line); if (len > 0 && line[len - 1] == '\n') line[len - 1] = '\0';\<close>\<close>

definition strip_newline :: "string \<Rightarrow> string" where
  "strip_newline line = (if line \<noteq> [] \<and> last line = CHR 0x0A then butlast line else line)"

section \<open>The data model (\<open>include/parsers/types.h\<close>)\<close>

text \<open>
  An array with its count is a list; a \<open>NULL\<close> array with count 0 is the empty list.
  Field names that several structs share carry the struct as a prefix, and the fields
  \<open>alias\<close> and \<open>section\<close> of the Docblock are \<open>func_alias\<close> and \<open>doc_section\<close>.
\<close>

record shellscribe_argument =
  arg_name :: string
  arg_type :: "string option"
  arg_description :: string

record shellscribe_exitcode =
  exit_code :: string
  exit_description :: string

record shellscribe_option =
  short_opt :: "string option"
  long_opt :: "string option"
  opt_arg_spec :: "string option"
  opt_description :: string

record shellscribe_env_var =
  env_name :: string
  env_default_value :: "string option"
  env_description :: "string option"

record shellscribe_param =
  param_name :: string
  param_description :: string

record shellscribe_return =
  return_value :: string
  return_description :: string

record shellscribe_see_also =
  see_name :: string
  see_url :: "string option"
  see_is_internal :: bool

record shellscribe_global_var =
  var_name :: string
  var_type :: "string option"
  var_default_value :: "string option"
  var_description :: "string option"
  var_is_readonly :: bool

record shellscribe_alert =
  alert_type :: string
  alert_content :: string

record shellscribe_deprecation =
  is_deprecated :: bool
  dep_version :: "string option"
  replacement :: "string option"
  eol :: "string option"

record shellscribe_section =
  section_name :: "string option"
  section_description :: "string option"

record shellscribe_shellcheck =
  sc_code :: "string option"
  sc_directive :: string
  sc_reason :: "string option"

record shellscribe_docblock =
  file_name :: "string option"
  brief :: "string option"
  description :: "string option"
  version :: "string option"
  author :: "string option"
  author_contact :: "string option"
  project :: "string option"
  license :: "string option"
  copyright :: "string option"
  interpreter :: "string option"
  function_name :: "string option"
  function_description :: "string option"
  function_brief :: "string option"
  func_alias :: "string option"
  return_desc :: "string option"
  doc_section :: "shellscribe_section option"
  arguments :: "shellscribe_argument list"
  no_args :: bool
  params :: "shellscribe_param list"
  returns :: "shellscribe_return list"
  stdin_doc :: "string option"
  stdout_doc :: "string option"
  stderr_doc :: "string option"
  exitcodes :: "shellscribe_exitcode list"
  options :: "shellscribe_option list"
  env_vars :: "shellscribe_env_var list"
  example :: "string option"
  see_also :: "shellscribe_see_also list"
  is_internal :: bool
  is_skipped :: bool
  deprecation :: shellscribe_deprecation
  alerts :: "shellscribe_alert list"
  warnings :: "string list"
  dependencies :: "string list"
  internal_calls :: "string list"
  requires :: "string list"
  used_by :: "string list"
  calls :: "string list"
  provides :: "string list"
  set_vars :: "shellscribe_global_var list"
  shellcheck_directives :: "shellscribe_shellcheck list"

text \<open>\<open>init_docblock\<close> (\<open>parsers/types.c\<close>): every pointer \<open>NULL\<close>, every count 0, every flag false.\<close>

definition init_docblock :: shellscribe_docblock where
  "init_docblock =
     \<lparr> file_name = None, brief = None, description = None, version = None, author = None,
       author_contact = None, project = None, license = None, copyright = None,
       interpreter = None, function_name = None, function_description = None,
       function_brief = None, func_alias = None, return_desc = None, doc_section = None,
       arguments = [], no_args = False, params = [], returns = [], stdin_doc = None,
       stdout_doc = None, stderr_doc = None, exitcodes = [], options = [], env_vars = [],
       example = None, see_also = [], is_internal = False, is_skipped = False,
       deprecation = \<lparr> is_deprecated = False, dep_version = None, replacement = None,
                       eol = None \<rparr>,
       alerts = [], warnings = [], dependencies = [], internal_calls = [], requires = [],
       used_by = [], calls = [], provides = [], set_vars = [], shellcheck_directives = [] \<rparr>"

section \<open>Line classification and tag extraction (\<open>parsers/tag.c\<close>)\<close>

definition TAG_PREFIX :: string where
  "TAG_PREFIX = ''# @''"

definition static_is_tag_line :: "string \<Rightarrow> bool" where
  "static_is_tag_line line = strncmp_prefix (skip_spaces line) TAG_PREFIX"

definition is_tag_line :: "string \<Rightarrow> bool" where
  "is_tag_line line = static_is_tag_line line"

definition is_comment_line :: "string \<Rightarrow> bool" where
  "is_comment_line line = (case skip_spaces line of [] \<Rightarrow> False | c # _ \<Rightarrow> c = CHR ''#'')"

text \<open>The loop \<open>while (*p && !isspace(*p) && *p != ':') p++;\<close> of both extractors.\<close>

definition tag_token :: "string \<Rightarrow> string" where
  "tag_token s = takeWhile (\<lambda>c. \<not> isspace c \<and> c \<noteq> CHR '':'') s"

definition extract_tag_name :: "string \<Rightarrow> string option" where
  "extract_tag_name line =
     (case strstr line ''@'' of
        None \<Rightarrow> None
      | Some at \<Rightarrow> Some (tag_token (drop (at + 1) line)))"

definition extract_tag_content :: "string \<Rightarrow> string option" where
  "extract_tag_content line =
     (case strstr line ''@'' of
        None \<Rightarrow> None
      | Some at \<Rightarrow>
          let tag_start = drop (at + 1) line;
              content_start = drop (length (tag_token tag_start)) tag_start;
              content_start = (case content_start of
                                 c # cs \<Rightarrow> if c = CHR '':'' then cs else c # cs
                               | [] \<Rightarrow> [])
          in Some (skip_spaces content_start))"

section \<open>File metadata (\<open>parsers/metadata.c\<close>)\<close>

definition is_file_level_tag :: "string \<Rightarrow> bool" where
  "is_file_level_tag tag =
     (tag \<in> set [''file'', ''version'', ''author'', ''license'', ''copyright'', ''since'',
                 ''description'', ''package'', ''module'', ''link'', ''repo'', ''see'', ''env'',
                 ''skip''])"

text \<open>
  The table \<open>tag_mappings\<close> pairs a tag name with the address of a field; a match frees
  the field and stores a copy of the content. The table is searched in its order.
\<close>

definition process_file_metadata_tag ::
  "shellscribe_docblock \<Rightarrow> string \<Rightarrow> string \<Rightarrow> bool \<times> shellscribe_docblock" where
  "process_file_metadata_tag docblock tag content =
     (if tag = ''file'' then (True, docblock\<lparr>file_name := Some content\<rparr>)
      else if tag = ''version'' then (True, docblock\<lparr>version := Some content\<rparr>)
      else if tag = ''author'' then (True, docblock\<lparr>author := Some content\<rparr>)
      else if tag = ''since'' then (True, docblock\<lparr>author_contact := Some content\<rparr>)
      else if tag = ''description'' then (True, docblock\<lparr>description := Some content\<rparr>)
      else if tag = ''brief'' then (True, docblock\<lparr>brief := Some content\<rparr>)
      else if tag = ''license'' then (True, docblock\<lparr>license := Some content\<rparr>)
      else if tag = ''copyright'' then (True, docblock\<lparr>copyright := Some content\<rparr>)
      else if tag = ''skip'' then (True, docblock\<lparr>is_skipped := True\<rparr>)
      else (False, docblock))"

section \<open>Arguments and parameters (\<open>parsers/argument.c\<close>)\<close>

definition process_argument_tag ::
  "shellscribe_docblock \<Rightarrow> string \<Rightarrow> bool \<times> shellscribe_docblock" where
  "process_argument_tag docblock content =
     (let arg_str = skip_spaces content;
          name = token arg_str
      in if name = [] then (False, docblock)
         else
           let arg_str = skip_spaces (drop (length name) arg_str);
               ty = token arg_str;
               arg_str = skip_spaces (drop (length ty) arg_str)
           in (True, docblock\<lparr>arguments := arguments docblock @
                 [\<lparr> arg_name = name,
                    arg_type = (if ty = [] then None else Some ty),
                    arg_description = arg_str \<rparr>]\<rparr>))"

definition process_parameter_tag ::
  "shellscribe_docblock \<Rightarrow> string \<Rightarrow> bool \<times> shellscribe_docblock" where
  "process_parameter_tag docblock content =
     (let name = token content
      in if name = [] then (False, docblock)
         else (True, docblock\<lparr>params := params docblock @
                 [\<lparr> param_name = name,
                    param_description = skip_spaces (drop (length name) content) \<rparr>]\<rparr>))"

section \<open>Examples (\<open>parsers/example.c\<close>)\<close>

definition add_example_to_docblock ::
  "shellscribe_docblock \<Rightarrow> string \<Rightarrow> bool \<times> shellscribe_docblock" where
  "add_example_to_docblock docblock example_content =
     (case example docblock of
        Some old \<Rightarrow>
          (True, docblock\<lparr>example :=
             string_concat (string_concat (Some old) (Some [CHR 0x0A, CHR 0x0A]))
                           (Some example_content)\<rparr>)
      | None \<Rightarrow> (True, docblock\<lparr>example := Some example_content\<rparr>))"

text \<open>
  The loop shared by \<open>process_example_tag\<close> and \<open>state_collect_continued_content\<close> tests
  \<open>is_special_annotation\<close> of \<open>parsers/annotation.c\<close>: the line contains one of six
  keywords anywhere.
\<close>

definition is_special_annotation :: "string \<Rightarrow> bool" where
  "is_special_annotation line =
     list_ex (\<lambda>keyword. strstr line keyword \<noteq> None)
       [''shellcheck'', ''disable'', ''TODO'', ''FIXME'', ''XXX'', ''HACK'']"

section \<open>Descriptions (\<open>parsers/description.c\<close>)\<close>

definition process_description_tag ::
  "shellscribe_docblock \<Rightarrow> string \<Rightarrow> bool \<times> shellscribe_docblock" where
  "process_description_tag docblock content =
     (if function_name docblock = None then
        (case description docblock of
           None \<Rightarrow> (True, docblock\<lparr>description := Some content\<rparr>)
         | Some old \<Rightarrow>
             (True, docblock\<lparr>description :=
                string_concat (string_concat (Some old) (Some [CHR 0x0A])) (Some content)\<rparr>))
      else
        (case function_description docblock of
           None \<Rightarrow> (True, docblock\<lparr>function_description := Some content\<rparr>)
         | Some old \<Rightarrow>
             (True, docblock\<lparr>function_description :=
                string_concat (string_concat (Some old) (Some [CHR 0x0A])) (Some content)\<rparr>)))"

section \<open>Standard streams (\<open>parsers/io.c\<close>)\<close>

definition process_stdin_tag ::
  "shellscribe_docblock \<Rightarrow> string \<Rightarrow> bool \<times> shellscribe_docblock" where
  "process_stdin_tag docblock content = (True, docblock\<lparr>stdin_doc := Some content\<rparr>)"

definition process_stdout_tag ::
  "shellscribe_docblock \<Rightarrow> string \<Rightarrow> bool \<times> shellscribe_docblock" where
  "process_stdout_tag docblock content = (True, docblock\<lparr>stdout_doc := Some content\<rparr>)"

definition process_stderr_tag ::
  "shellscribe_docblock \<Rightarrow> string \<Rightarrow> bool \<times> shellscribe_docblock" where
  "process_stderr_tag docblock content = (True, docblock\<lparr>stderr_doc := Some content\<rparr>)"

section \<open>Deprecation (\<open>parsers/deprecated.c\<close>)\<close>

definition process_deprecated_tag ::
  "shellscribe_docblock \<Rightarrow> string \<Rightarrow> bool \<times> shellscribe_docblock" where
  "process_deprecated_tag docblock content =
     (let dep = (deprecation docblock)\<lparr>is_deprecated := True\<rparr>;
          dep = (if content \<noteq> [] then
                   (case strstr content ''from'' of
                      Some from \<Rightarrow> dep\<lparr>dep_version := Some (skip_spaces (drop (from + 4) content))\<rparr>
                    | None \<Rightarrow> dep\<lparr>dep_version := Some content\<rparr>)
                 else dep)
      in (True, docblock\<lparr>deprecation := dep\<rparr>))"

definition process_replacement_tag ::
  "shellscribe_docblock \<Rightarrow> string \<Rightarrow> bool \<times> shellscribe_docblock" where
  "process_replacement_tag docblock content =
     (if content = [] then (False, docblock)
      else (True, docblock\<lparr>deprecation := (deprecation docblock)\<lparr>replacement := Some content\<rparr>\<rparr>))"

definition process_eol_tag ::
  "shellscribe_docblock \<Rightarrow> string \<Rightarrow> bool \<times> shellscribe_docblock" where
  "process_eol_tag docblock content =
     (if content = [] then (False, docblock)
      else (True, docblock\<lparr>deprecation := (deprecation docblock)\<lparr>eol := Some content\<rparr>\<rparr>))"

section \<open>Return values and exit codes (\<open>parsers/return.c\<close>, \<open>parsers/exitcode.c\<close>)\<close>

definition process_return_tag ::
  "shellscribe_docblock \<Rightarrow> string \<Rightarrow> bool \<times> shellscribe_docblock" where
  "process_return_tag docblock content = (True, docblock\<lparr>return_desc := Some content\<rparr>)"

definition process_returns_tag ::
  "shellscribe_docblock \<Rightarrow> string \<Rightarrow> bool \<times> shellscribe_docblock" where
  "process_returns_tag docblock content = process_return_tag docblock content"

definition parse_exitcode_content :: "string \<Rightarrow> (string \<times> string) option" where
  "parse_exitcode_content content =
     (let content = skip_spaces content
      in if content = [] then None
         else (case strchr content (CHR '' '') of
                 None \<Rightarrow> Some (content, [])
               | Some code_end \<Rightarrow>
                   Some (take code_end content, skip_spaces (drop (code_end + 1) content))))"

definition process_exitcode_tag ::
  "shellscribe_docblock \<Rightarrow> string \<Rightarrow> bool \<times> shellscribe_docblock" where
  "process_exitcode_tag docblock content =
     (case parse_exitcode_content content of
        None \<Rightarrow> (False, docblock)
      | Some (code, desc) \<Rightarrow>
          (True, docblock\<lparr>exitcodes := exitcodes docblock @
             [\<lparr> exit_code = code, exit_description = desc \<rparr>]\<rparr>))"

section \<open>Alerts (\<open>parsers/alert.c\<close>)\<close>

definition get_alert_type :: "string \<Rightarrow> string" where
  "get_alert_type tag =
     (if tag = ''note'' then ''NOTE''
      else if tag = ''tip'' then ''TIP''
      else if tag = ''important'' then ''IMPORTANT''
      else if tag = ''warning'' then ''WARNING''
      else if tag = ''caution'' then ''CAUTION''
      else if tag = ''info'' then ''INFO''
      else if tag = ''danger'' then ''DANGER''
      else if tag = ''hint'' then ''TIP''
      else ''NOTE'')"

definition process_alert_tag ::
  "shellscribe_docblock \<Rightarrow> string \<Rightarrow> string \<Rightarrow> bool \<times> shellscribe_docblock" where
  "process_alert_tag docblock tag content =
     (True, docblock\<lparr>alerts := alerts docblock @
        [\<lparr> alert_type = get_alert_type tag, alert_content = content \<rparr>]\<rparr>)"

section \<open>Shellcheck directives (\<open>parsers/shellcheck.c\<close>)\<close>

definition is_shellcheck_directive :: "string \<Rightarrow> bool" where
  "is_shellcheck_directive line =
     (case skip_spaces line of
        [] \<Rightarrow> False
      | c # cs \<Rightarrow> c = CHR ''#'' \<and> strncasecmp_prefix (skip_spaces cs) ''shellcheck'')"

definition extract_shellcheck_directive :: "string \<Rightarrow> string" where
  "extract_shellcheck_directive line =
     (case skip_spaces line of
        [] \<Rightarrow> []
      | c # cs \<Rightarrow> if c = CHR ''#'' then skip_spaces cs else c # cs)"

definition parse_shellcheck_directive :: "string \<Rightarrow> string \<times> string option" where
  "parse_shellcheck_directive directive =
     (let sc_start = (case strstr directive ''disable='' of
                        Some disable_pattern \<Rightarrow> Some (disable_pattern + 8)
                      | None \<Rightarrow> (case strstr directive ''enable='' of
                                   Some enable_pattern \<Rightarrow> Some (enable_pattern + 7)
                                 | None \<Rightarrow> None))
      in case sc_start of
           None \<Rightarrow> (directive, None)
         | Some sc_start \<Rightarrow>
             let code = takeWhile (\<lambda>c. \<not> isspace c \<and> c \<noteq> CHR ''#'') (drop sc_start directive);
                 code_end = drop (sc_start + length code) directive
             in (code,
                 case strchr code_end (CHR ''#'') of
                   None \<Rightarrow> None
                 | Some reason_start \<Rightarrow>
                     let reason = skip_spaces (drop (reason_start + 1) code_end)
                     in if reason \<noteq> [] then Some reason else None))"

definition add_shellcheck_directive ::
  "shellscribe_docblock \<Rightarrow> string \<Rightarrow> bool \<times> shellscribe_docblock" where
  "add_shellcheck_directive docblock directive =
     (let (code, reason) = parse_shellcheck_directive directive
      in (True, docblock\<lparr>shellcheck_directives := shellcheck_directives docblock @
            [\<lparr> sc_code = Some code, sc_directive = directive, sc_reason = reason \<rparr>]\<rparr>))"

definition process_shellcheck_line ::
  "shellscribe_docblock \<Rightarrow> string \<Rightarrow> bool \<times> shellscribe_docblock" where
  "process_shellcheck_line docblock line =
     (if \<not> is_shellcheck_directive line then (False, docblock)
      else add_shellcheck_directive docblock (extract_shellcheck_directive line))"

section \<open>Function declarations (\<open>parsers/function.c\<close>)\<close>

text \<open>\<open>strncmp(pos, "function", 8) == 0 && isspace(pos[8])\<close>\<close>

definition function_keyword :: "string \<Rightarrow> bool" where
  "function_keyword pos =
     (strncmp_prefix pos ''function'' \<and>
      (case drop 8 pos of [] \<Rightarrow> False | c # _ \<Rightarrow> isspace c))"

definition is_function_declaration :: "string \<Rightarrow> bool" where
  "is_function_declaration line =
     (let pos = skip_spaces line
      in if function_keyword pos then True
         else (case strchr pos (CHR ''('') of
                 None \<Rightarrow> False
               | Some parenthesis \<Rightarrow>
                   if 0 < parenthesis then
                     if \<not> list_all (\<lambda>c. isalnum c \<or> c = CHR ''_'') (take parenthesis pos)
                     then False
                     else (case strchr (drop parenthesis pos) (CHR '')'') of
                             None \<Rightarrow> False
                           | Some closing \<Rightarrow>
                               (case strchr (drop (parenthesis + closing) pos) (CHR ''{'') of
                                  None \<Rightarrow> False
                                | Some brace \<Rightarrow>
                                    list_all isspace
                                      (take (brace - 1)
                                         (drop (parenthesis + closing + 1) pos))))
                   else False))"

definition extract_function_name :: "string \<Rightarrow> string option" where
  "extract_function_name line =
     (if \<not> is_function_declaration line then None
      else
        let pos = skip_spaces line;
            pos = (if function_keyword pos then skip_spaces (drop 8 pos) else pos)
        in case strchr pos (CHR ''('') of
             None \<Rightarrow> None
           | Some e \<Rightarrow> if 0 < e then Some (drop_trailing_spaces (take e pos)) else None)"

section \<open>Options (\<open>parsers/option.c\<close>)\<close>

text \<open>
  The block that \<open>parse_option_content\<close> repeats three times: find \<open><\<close>, then \<open>></\<close> from
  there on, and copy what is between them; nothing is produced unless both are found.
\<close>

definition angle_arg_spec :: "string \<Rightarrow> string option" where
  "angle_arg_spec s =
     (case strchr s (CHR ''<'') of
        None \<Rightarrow> None
      | Some arg_open \<Rightarrow>
          (case strchr (drop arg_open s) (CHR ''>'') of
             None \<Rightarrow> None
           | Some arg_close \<Rightarrow> Some (take (arg_close - 1) (drop (arg_open + 1) s))))"

text \<open>The result is \<open>(option, description, arg_spec)\<close>; \<open>None\<close> is the return value \<open>false\<close>.\<close>

definition parse_option_content :: "string \<Rightarrow> (string \<times> string \<times> string option) option" where
  "parse_option_content content =
     (let content = skip_spaces content
      in if content = [] then None
         else
           (case strstr content ''|'' of
              Some pipe \<Rightarrow>
                let opt = drop_trailing_spaces (take pipe content);
                    desc_start = skip_spaces (drop (pipe + 1) content);
                    desc = (case strchr desc_start (CHR '' '') of
                              Some second_space \<Rightarrow> drop (second_space + 1) desc_start
                            | None \<Rightarrow> []);
                    arg_spec = (case angle_arg_spec opt of
                                  Some a \<Rightarrow> Some a
                                | None \<Rightarrow> angle_arg_spec desc_start)
                in Some (opt, desc, arg_spec)
            | None \<Rightarrow>
                let (opt, desc) = (case strchr content (CHR '' '') of
                                     Some space \<Rightarrow> (take space content, drop (space + 1) content)
                                   | None \<Rightarrow> (content, []));
                    arg_spec = (case strchr opt (CHR ''='') of
                                  Some equals \<Rightarrow> angle_arg_spec (drop equals opt)
                                | None \<Rightarrow> angle_arg_spec opt)
                in Some (opt, desc, arg_spec)))"

definition process_option_tag ::
  "shellscribe_docblock \<Rightarrow> string \<Rightarrow> bool \<times> shellscribe_docblock" where
  "process_option_tag docblock content =
     (case parse_option_content content of
        None \<Rightarrow> (False, docblock)
      | Some (opt, desc, arg_spec) \<Rightarrow>
          if strncmp_prefix opt ''-'' \<and> \<not> strncmp_prefix opt ''--'' then
            (True, docblock\<lparr>options := options docblock @
               [\<lparr> short_opt = Some opt, long_opt = None, opt_arg_spec = arg_spec,
                  opt_description = desc \<rparr>]\<rparr>)
          else if strncmp_prefix opt ''--'' then
            (True, docblock\<lparr>options := options docblock @
               [\<lparr> short_opt = None, long_opt = Some opt, opt_arg_spec = arg_spec,
                  opt_description = desc \<rparr>]\<rparr>)
          else (False, docblock))"

section \<open>References (\<open>parsers/reference.c\<close>)\<close>

text \<open>The result is \<open>(name, url, is_internal)\<close>; \<open>None\<close> is the return value \<open>false\<close>.\<close>

definition parse_see_content :: "string \<Rightarrow> (string \<times> string option \<times> bool) option" where
  "parse_see_content content =
     (let content = skip_spaces content
      in if content = [] then None
         else
           (case (strchr content (CHR ''[''), strchr content (CHR '']''),
                  strchr content (CHR ''(''), strchr content (CHR '')'')) of
              (Some open_bracket, Some close_bracket, Some open_paren, Some close_paren) \<Rightarrow>
                if open_bracket < close_bracket \<and> close_bracket < open_paren \<and>
                   open_paren < close_paren
                then Some (take (close_bracket - open_bracket - 1)
                             (drop (open_bracket + 1) content),
                           Some (take (close_paren - open_paren - 1)
                                   (drop (open_paren + 1) content)),
                           False)
                else Some (content, None, True)
            | _ \<Rightarrow> Some (content, None, True)))"

definition process_see_tag ::
  "shellscribe_docblock \<Rightarrow> string \<Rightarrow> bool \<times> shellscribe_docblock" where
  "process_see_tag docblock content =
     (case parse_see_content content of
        None \<Rightarrow> (False, docblock)
      | Some (name, url, internal) \<Rightarrow>
          (True, docblock\<lparr>see_also := see_also docblock @
             [\<lparr> see_name = name, see_url = url, see_is_internal = internal \<rparr>]\<rparr>))"

section \<open>The parser state (\<open>parsers/state.c\<close>)\<close>

text \<open>
  \<open>file_text\<close> stands for the field \<open>file\<close>: the text of the open file from the read
  position on. \<open>current_block\<close>
  points into the caller's array of Docblocks: it is the index of that element, and
  \<open>blocks\<close> is the array. The configuration only feeds \<open>debug_message\<close> and is left out.
\<close>

record parser_state =
  file_text :: string
  current_block :: nat
  line_number :: int
  in_docblock :: bool
  blocks :: "shellscribe_docblock list"

definition the_block :: "parser_state \<Rightarrow> shellscribe_docblock" where
  "the_block st = blocks st ! current_block st"

definition set_block :: "parser_state \<Rightarrow> shellscribe_docblock \<Rightarrow> parser_state" where
  "set_block st d = st\<lparr>blocks := (blocks st)[current_block st := d]\<rparr>"

text \<open>A handler called on \<open>state->current_block\<close>.\<close>

definition on_current_block ::
  "parser_state \<Rightarrow> (shellscribe_docblock \<Rightarrow> bool \<times> shellscribe_docblock) \<Rightarrow>
   bool \<times> parser_state" where
  "on_current_block st handler =
     (let (ok, d) = handler (the_block st) in (ok, set_block st d))"

lemma fgets_shorter:
  assumes "fgets n f = Some (buf, rest)" and "1 < n"
  shows "length rest < length f"
proof -
  from assms obtain c cs where f: "f = c # cs"
    by (cases f) (auto simp: fgets_def)
  with assms have "buf \<noteq> []"
    by (auto simp: fgets_def Let_def split: if_splits)
  moreover from assms have "rest = drop (length buf) f"
    by (auto simp: fgets_def Let_def split: if_splits)
  ultimately show ?thesis using f by simp
qed

text \<open>
  The loop of \<open>state_collect_continued_content\<close>. \<open>pos\<close> is the saved read position,
  \<open>acc\<close> the accumulated content; the result is the content and the read position the
  loop leaves behind.
\<close>

function collect_loop :: "string \<Rightarrow> string \<Rightarrow> string \<Rightarrow> string \<times> string" where
  "collect_loop pos acc f =
     (case fgets MAX_LINE_LENGTH f of
        None \<Rightarrow> (acc, f)
      | Some (buf, rest) \<Rightarrow>
          let line = strip_newline (c_str buf)
          in if is_comment_line line \<and> \<not> is_tag_line line \<and> \<not> is_special_annotation line
             then (case strchr line (CHR ''#'') of
                     None \<Rightarrow> collect_loop pos acc rest
                   | Some hash \<Rightarrow>
                       let comment_start = skip_spaces (drop (hash + 1) line)
                       in collect_loop rest (acc @ [CHR 0x0A] @ comment_start) rest)
             else (acc, pos))"
  by pat_completeness auto
termination
  by (relation "measure (\<lambda>(pos, acc, f). length f)")
     (auto simp: MAX_LINE_LENGTH_def dest!: fgets_shorter)

definition state_collect_continued_content ::
  "parser_state \<Rightarrow> string \<Rightarrow> string \<times> parser_state" where
  "state_collect_continued_content st initial_content =
     (let (accumulated_content, f) = collect_loop (file_text st) initial_content (file_text st)
      in (accumulated_content, st\<lparr>file_text := f\<rparr>))"

text \<open>
  The loop of \<open>process_example_tag\<close> (\<open>parsers/example.c\<close>): the same, but the text after
  the \<open>#\<close> is appended with its leading whitespace.
\<close>

function example_loop :: "string \<Rightarrow> string \<Rightarrow> string \<Rightarrow> string \<times> string" where
  "example_loop pos acc f =
     (case fgets MAX_LINE_LENGTH f of
        None \<Rightarrow> (acc, f)
      | Some (buf, rest) \<Rightarrow>
          let line = strip_newline (c_str buf)
          in if is_comment_line line \<and> \<not> is_tag_line line \<and> \<not> is_special_annotation line
             then (case strchr line (CHR ''#'') of
                     None \<Rightarrow> example_loop pos acc rest
                   | Some hash \<Rightarrow>
                       let comment_start = drop (hash + 1) line
                       in example_loop rest (acc @ [CHR 0x0A] @ comment_start) rest)
             else (acc, pos))"
  by pat_completeness auto
termination
  by (relation "measure (\<lambda>(pos, acc, f). length f)")
     (auto simp: MAX_LINE_LENGTH_def dest!: fgets_shorter)

definition process_example_tag :: "parser_state \<Rightarrow> string \<Rightarrow> string \<times> parser_state" where
  "process_example_tag st content =
     (let (example_content, f) = example_loop (file_text st) content (file_text st)
      in (example_content, st\<lparr>file_text := f\<rparr>))"

definition process_example_using_state ::
  "parser_state \<Rightarrow> string \<Rightarrow> bool \<times> parser_state" where
  "process_example_using_state st content =
     (let (example_content, st) = process_example_tag st content
      in on_current_block st (\<lambda>d. add_example_to_docblock d example_content))"

definition state_process_tag :: "parser_state \<Rightarrow> string \<Rightarrow> string \<Rightarrow> bool \<times> parser_state" where
  "state_process_tag st tag content =
     (if is_file_level_tag tag then
        on_current_block st (\<lambda>d. process_file_metadata_tag d tag content)
      else if tag = ''function'' then
        (let name = (case strstr content ''()'' of
                       Some parentheses \<Rightarrow>
                         if parentheses + 2 = length content then take parentheses content
                         else content
                     | None \<Rightarrow> content)
         in (True, (set_block st ((the_block st)\<lparr>function_name := Some name\<rparr>))
                     \<lparr>in_docblock := True\<rparr>))
      else if tag = ''brief'' then
        (if function_name (the_block st) = None
         then (True, set_block st ((the_block st)\<lparr>brief := Some content\<rparr>))
         else (True, set_block st ((the_block st)\<lparr>function_brief := Some content\<rparr>)))
      else if tag = ''description'' then
        (let (accumulated_content, st) = state_collect_continued_content st content
         in if function_name (the_block st) = None
            then (True, set_block st ((the_block st)\<lparr>description := Some accumulated_content\<rparr>))
            else (True, set_block st
                          ((the_block st)\<lparr>function_description := Some accumulated_content\<rparr>)))
      else if tag = ''arg'' \<or> tag = ''argument'' then
        on_current_block st (\<lambda>d. process_argument_tag d content)
      else if tag = ''param'' then
        on_current_block st (\<lambda>d. process_parameter_tag d content)
      else if tag = ''return'' then
        on_current_block st (\<lambda>d. process_return_tag d content)
      else if tag = ''returns'' then
        on_current_block st (\<lambda>d. process_returns_tag d content)
      else if tag = ''exitcode'' then
        on_current_block st (\<lambda>d. process_exitcode_tag d content)
      else if tag = ''example'' then
        process_example_using_state st content
      else if tag = ''stdout'' then
        (let (accumulated_content, st) = state_collect_continued_content st content
         in (True, set_block st ((the_block st)\<lparr>stdout_doc := Some accumulated_content\<rparr>)))
      else if tag = ''stderr'' then
        (True, set_block st ((the_block st)\<lparr>stderr_doc := Some content\<rparr>))
      else if tag = ''internal'' then
        (True, set_block st ((the_block st)\<lparr>is_internal := True\<rparr>))
      else if tag \<in> set [''note'', ''warning'', ''error'', ''tip'', ''important'', ''info'',
                          ''danger'', ''hint'', ''caution'', ''alert''] then
        on_current_block st (\<lambda>d. process_alert_tag d tag content)
      else (False, st))"

section \<open>The parser engine (\<open>parsers/parser_engine.c\<close>)\<close>

definition extract_shebang ::
  "string \<Rightarrow> shellscribe_docblock \<Rightarrow> bool \<times> shellscribe_docblock" where
  "extract_shebang line docblock =
     (if strncmp_prefix line ''#!'' then
        (let interp = dropWhile (\<lambda>c. c = CHR '' '' \<or> c = CHR 0x09) (drop 2 line)
         in if interp \<noteq> [] then (True, docblock\<lparr>interpreter := Some interp\<rparr>)
            else (False, docblock))
      else (False, docblock))"

text \<open>
  The first loop of \<open>parse_shell_file\<close>, over the head of the file; it only writes
  \<open>docblocks[0]\<close>, and the file is rewound after it. The shebang test comes before the
  newline is cut off.
\<close>

function metadata_loop :: "shellscribe_docblock \<Rightarrow> string \<Rightarrow> shellscribe_docblock" where
  "metadata_loop d f =
     (case fgets MAX_LINE_LENGTH f of
        None \<Rightarrow> d
      | Some (buf, rest) \<Rightarrow>
          let metadata_line = c_str buf
          in if strncmp_prefix metadata_line ''#!''
             then metadata_loop (snd (extract_shebang metadata_line d)) rest
             else
               let metadata_line = strip_newline metadata_line
               in if strncmp_prefix metadata_line ''# @'' then
                    (case (extract_tag_name metadata_line, extract_tag_content metadata_line) of
                       (Some tag, Some content) \<Rightarrow>
                         metadata_loop
                           (if is_file_level_tag tag
                            then snd (process_file_metadata_tag d tag content) else d)
                           rest
                     | _ \<Rightarrow> metadata_loop d rest)
                  else if \<not> is_comment_line metadata_line then d
                  else metadata_loop d rest)"
  by pat_completeness auto
termination
  by (relation "measure (\<lambda>(d, f). length f)")
     (auto simp: MAX_LINE_LENGTH_def dest!: fgets_shorter)

text \<open>
  One turn of the second loop, after \<open>fgets\<close> has read \<open>state.line\<close>, the line counter is
  advanced and the newline is cut off. \<open>&docblocks[block_count++]\<close> followed by
  \<open>init_docblock\<close> is \<open>open_block\<close>.
\<close>

definition open_block :: "parser_state \<Rightarrow> nat \<Rightarrow> parser_state \<times> nat" where
  "open_block st block_count =
     (st\<lparr>current_block := block_count,
         blocks := (blocks st)[block_count := init_docblock]\<rparr>,
      block_count + 1)"

definition process_line :: "parser_state \<Rightarrow> nat \<Rightarrow> string \<Rightarrow> parser_state \<times> nat" where
  "process_line st block_count line =
     (if is_comment_line line then
        (let st = (if is_shellcheck_directive line \<and> current_block st \<noteq> 0
                   then snd (on_current_block st (\<lambda>d. process_shellcheck_line d line))
                   else st)
         in if is_tag_line line then
              (case (extract_tag_name line, extract_tag_content line) of
                 (Some tag, Some content) \<Rightarrow>
                   let (st, block_count) =
                         (if tag = ''function'' then open_block st block_count
                          else (st, block_count))
                   in (snd (state_process_tag st tag content), block_count)
               | _ \<Rightarrow> (st, block_count))
            else if is_function_declaration line then
              (case extract_function_name line of
                 None \<Rightarrow> (st, block_count)
               | Some func_name \<Rightarrow>
                   let (st, block_count) =
                         (if \<not> in_docblock st \<or> current_block st = 0
                          then open_block st block_count
                          else (st, block_count));
                       st = (if function_name (the_block st) = None
                             then set_block st ((the_block st)\<lparr>function_name := Some func_name\<rparr>)
                             else st)
                   in (st\<lparr>in_docblock := False\<rparr>, block_count))
            else (st, block_count))
      else (st\<lparr>in_docblock := False\<rparr>, block_count))"

declare collect_loop.simps [simp del]
declare example_loop.simps [simp del]
declare metadata_loop.simps [simp del]

lemma collect_loop_length:
  "length (snd (collect_loop pos acc f)) \<le> max (length pos) (length f)"
proof (induction pos acc f rule: collect_loop.induct)
  case (1 pos acc f)
  show ?case
  proof (cases "fgets MAX_LINE_LENGTH f")
    case None
    then show ?thesis by (subst collect_loop.simps) simp
  next
    case (Some p)
    obtain buf rest where p: "p = (buf, rest)" by (cases p)
    have lt: "length rest < length f"
      using fgets_shorter [of MAX_LINE_LENGTH f buf rest] Some p
      by (simp add: MAX_LINE_LENGTH_def)
    define line where "line = strip_newline (c_str buf)"
    let ?go = "is_comment_line line \<and> \<not> is_tag_line line \<and> \<not> is_special_annotation line"
    show ?thesis
    proof (cases ?go)
      case False
      then show ?thesis
        using Some p by (subst collect_loop.simps) (auto simp: line_def Let_def)
    next
      case go: True
      show ?thesis
      proof (cases "strchr line (CHR ''#'')")
        case None
        have "length (snd (collect_loop pos acc rest)) \<le> max (length pos) (length rest)"
          using "1.IH"(1) [OF Some p [symmetric] line_def go None] .
        then show ?thesis
          using Some p go None lt by (subst collect_loop.simps) (simp add: line_def Let_def)
      next
        case (Some hash)
        have "length (snd (collect_loop rest (acc @ [CHR 0x0A] @ skip_spaces (drop (hash + 1) line)) rest))
                \<le> max (length rest) (length rest)"
          using "1.IH"(2) [OF \<open>fgets MAX_LINE_LENGTH f = Some p\<close> p [symmetric] line_def go Some refl] .
        then show ?thesis
          using \<open>fgets MAX_LINE_LENGTH f = Some p\<close> p go Some lt
          by (subst collect_loop.simps) (simp add: line_def Let_def)
      qed
    qed
  qed
qed

lemma example_loop_length:
  "length (snd (example_loop pos acc f)) \<le> max (length pos) (length f)"
proof (induction pos acc f rule: example_loop.induct)
  case (1 pos acc f)
  show ?case
  proof (cases "fgets MAX_LINE_LENGTH f")
    case None
    then show ?thesis by (subst example_loop.simps) simp
  next
    case (Some p)
    obtain buf rest where p: "p = (buf, rest)" by (cases p)
    have lt: "length rest < length f"
      using fgets_shorter [of MAX_LINE_LENGTH f buf rest] Some p
      by (simp add: MAX_LINE_LENGTH_def)
    define line where "line = strip_newline (c_str buf)"
    let ?go = "is_comment_line line \<and> \<not> is_tag_line line \<and> \<not> is_special_annotation line"
    show ?thesis
    proof (cases ?go)
      case False
      then show ?thesis
        using Some p by (subst example_loop.simps) (auto simp: line_def Let_def)
    next
      case go: True
      show ?thesis
      proof (cases "strchr line (CHR ''#'')")
        case None
        have "length (snd (example_loop pos acc rest)) \<le> max (length pos) (length rest)"
          using "1.IH"(1) [OF Some p [symmetric] line_def go None] .
        then show ?thesis
          using Some p go None lt by (subst example_loop.simps) (simp add: line_def Let_def)
      next
        case (Some hash)
        have "length (snd (example_loop rest (acc @ [CHR 0x0A] @ drop (hash + 1) line) rest))
                \<le> max (length rest) (length rest)"
          using "1.IH"(2) [OF \<open>fgets MAX_LINE_LENGTH f = Some p\<close> p [symmetric] line_def go Some refl] .
        then show ?thesis
          using \<open>fgets MAX_LINE_LENGTH f = Some p\<close> p go Some lt
          by (subst example_loop.simps) (simp add: line_def Let_def)
      qed
    qed
  qed
qed

lemma on_current_block_file_text:
  "file_text (snd (on_current_block st handler)) = file_text st"
  by (simp add: on_current_block_def set_block_def case_prod_beta)

lemma set_block_file_text:
  "file_text (set_block st d) = file_text st"
  by (simp add: set_block_def)

lemma state_collect_continued_content_file_text:
  "length (file_text (snd (state_collect_continued_content st c))) \<le> length (file_text st)"
  using collect_loop_length [of "file_text st" c "file_text st"]
  by (simp add: state_collect_continued_content_def case_prod_beta)

lemma process_example_using_state_file_text:
  "length (file_text (snd (process_example_using_state st c))) \<le> length (file_text st)"
  using example_loop_length [of "file_text st" c "file_text st"]
  by (simp add: process_example_using_state_def process_example_tag_def case_prod_beta
                on_current_block_file_text)

lemma state_process_tag_file_text:
  "length (file_text (snd (state_process_tag st tag content))) \<le> length (file_text st)"
  unfolding state_process_tag_def
  by (simp add: case_prod_beta Let_def on_current_block_file_text set_block_file_text
                state_collect_continued_content_file_text
                process_example_using_state_file_text
           del: set_simps)

lemma open_block_file_text:
  "file_text (fst (open_block st bc)) = file_text st"
  by (simp add: open_block_def)

lemma process_line_file_text:
  "length (file_text (fst (process_line st bc line))) \<le> length (file_text st)"
proof -
  define st1 where
    "st1 = (if is_shellcheck_directive line \<and> current_block st \<noteq> 0
            then snd (on_current_block st (\<lambda>d. process_shellcheck_line d line))
            else st)"
  have f1: "file_text st1 = file_text st"
    by (simp add: st1_def on_current_block_file_text)
  have ob: "file_text (fst (open_block st1 bc)) = file_text st"
    by (simp add: f1 open_block_file_text)
  have tag1: "length (file_text (snd (state_process_tag st1 t c))) \<le> length (file_text st)"
    for t c
    using state_process_tag_file_text [of st1 t c] by (simp only: f1)
  have tag2: "length (file_text (snd (state_process_tag (fst (open_block st1 bc)) t c)))
               \<le> length (file_text st)" for t c
    using state_process_tag_file_text [of "fst (open_block st1 bc)" t c] by (simp only: ob)
  show ?thesis
    unfolding process_line_def Let_def st1_def [symmetric]
    by (simp add: case_prod_beta tag1 tag2 ob f1 set_block_file_text split: option.splits)
qed

text \<open>
  The second loop of \<open>parse_shell_file\<close>:
  \<open>while (fgets(state.line, sizeof(state.line), state.file) && block_count < max_blocks)\<close>.
\<close>

function body_loop :: "nat \<Rightarrow> parser_state \<Rightarrow> nat \<Rightarrow> parser_state \<times> nat" where
  "body_loop max_blocks st block_count =
     (case fgets MAX_LINE_LENGTH (file_text st) of
        None \<Rightarrow> (st, block_count)
      | Some (buf, rest) \<Rightarrow>
          if \<not> block_count < max_blocks then (st\<lparr>file_text := rest\<rparr>, block_count)
          else
            let r = process_line (st\<lparr>file_text := rest, line_number := line_number st + 1\<rparr>)
                      block_count (strip_newline (c_str buf))
            in body_loop max_blocks (fst r) (snd r))"
  by pat_completeness auto
termination
proof (relation "measure (\<lambda>(max_blocks, st, block_count). length (file_text st))", goal_cases)
  case 1
  show ?case by simp
next
  case (2 max_blocks st block_count x2 buf rest r)
  have "length rest < length (file_text st)"
    using fgets_shorter [of MAX_LINE_LENGTH "file_text st" buf rest] 2
    by (simp add: MAX_LINE_LENGTH_def)
  moreover have "length (file_text (fst r)) \<le> length rest"
    using process_line_file_text
            [of "st\<lparr>file_text := rest, line_number := line_number st + 1\<rparr>" block_count
                "strip_newline (c_str buf)"] 2
    by simp
  ultimately show ?case by (simp add: case_prod_beta)
qed

declare body_loop.simps [simp del]

text \<open>
  \<open>parse_shell_file\<close>. The file system is a map from paths to file contents, so \<open>fopen\<close>
  fails exactly on a path outside its domain. The result is the returned count and the
  content of the caller's array \<open>docblocks[0 .. max_blocks - 1]\<close> after the call; with
  \<open>max_blocks <= 0\<close> the function returns before it writes anything.
\<close>

definition parse_shell_file ::
  "(string \<rightharpoonup> string) \<Rightarrow> string \<Rightarrow> int \<Rightarrow> int \<times> shellscribe_docblock list" where
  "parse_shell_file fs file_path max_blocks =
     (if max_blocks \<le> 0 then (0, [])
      else
        let docblocks = replicate (nat max_blocks) init_docblock;
            docblocks = docblocks[0 := (docblocks ! 0)\<lparr>file_name := Some file_path\<rparr>]
        in case fs file_path of
             None \<Rightarrow> (0, docblocks)
           | Some text \<Rightarrow>
               let docblocks = docblocks[0 := metadata_loop (docblocks ! 0) text];
                   st = \<lparr> file_text = text, current_block = 0, line_number = 0,
                          in_docblock = False, blocks = docblocks \<rparr>;
                   (st, block_count) = body_loop (nat max_blocks) st 1
               in (int block_count, blocks st))"

section \<open>Notions used to state the properties\<close>

text \<open>
  The position of the first occurrence of a character, the text strictly between two
  positions, and the shape of a Markdown link \<open>[name](url)\<close>: the four characters are
  present and their first occurrences come in the order \<open>[\<close>, \<open>]\<close>, \<open>(\<close>, \<open>)\<close>.
  \<open>see_reference\<close> is the reference that a \<open>@see\<close> content denotes.
\<close>

definition first_index :: "string \<Rightarrow> char \<Rightarrow> nat" where
  "first_index s c = length (takeWhile (\<lambda>x. x \<noteq> c) s)"

definition text_between :: "string \<Rightarrow> nat \<Rightarrow> nat \<Rightarrow> string" where
  "text_between s i j = take (j - i - 1) (drop (i + 1) s)"

definition markdown_link_shape :: "string \<Rightarrow> bool" where
  "markdown_link_shape s \<longleftrightarrow>
     CHR ''['' \<in> set s \<and> CHR '']'' \<in> set s \<and> CHR ''('' \<in> set s \<and> CHR '')'' \<in> set s \<and>
     first_index s (CHR ''['') < first_index s (CHR '']'') \<and>
     first_index s (CHR '']'') < first_index s (CHR ''('') \<and>
     first_index s (CHR ''('') < first_index s (CHR '')'')"

definition see_reference :: "string \<Rightarrow> string \<times> string option \<times> bool" where
  "see_reference s =
     (if markdown_link_shape s
      then (text_between s (first_index s (CHR ''['')) (first_index s (CHR '']'')),
            Some (text_between s (first_index s (CHR ''('')) (first_index s (CHR '')''))),
            False)
      else (s, None, True))"

text \<open>
  For the continuation collector: a line of text that \<open>fgets\<close> reads whole, the test the
  collector applies to a line, the text of a comment after its \<open>#\<close> and the whitespace
  that follows, and a read position at which the collector stops (end of file, or the
  next line read is not a continuation line).
\<close>

definition text_line :: "string \<Rightarrow> bool" where
  "text_line l \<longleftrightarrow>
     CHR 0x0A \<notin> set l \<and> CHR 0x00 \<notin> set l \<and> length l < MAX_LINE_LENGTH - 1"

definition continuation_line :: "string \<Rightarrow> bool" where
  "continuation_line l \<longleftrightarrow>
     is_comment_line l \<and> \<not> is_tag_line l \<and> \<not> is_special_annotation l"

definition comment_text :: "string \<Rightarrow> string" where
  "comment_text l = dropWhile isspace (tl (dropWhile (\<lambda>c. c \<noteq> CHR ''#'') l))"

definition next_line_stops :: "string \<Rightarrow> bool" where
  "next_line_stops f \<longleftrightarrow>
     (case fgets MAX_LINE_LENGTH f of
        None \<Rightarrow> True
      | Some (buf, rest) \<Rightarrow> \<not> continuation_line (strip_newline (c_str buf)))"

text \<open>The function name stored in \<open>docblocks[0]\<close>, the file-level Docblock.\<close>

definition file_block_name :: "parser_state \<Rightarrow> string option" where
  "file_block_name st = function_name (blocks st ! 0)"

section \<open>Auxiliary facts\<close>



lemma strchr_None_iff: "strchr s c = None \<longleftrightarrow> c \<notin> set s"
  by (induction s) auto

lemma strchr_split: "c \<notin> set pre \<Longrightarrow> strchr (pre @ c # post) c = Some (length pre)"
  by (induction pre) auto

lemma strchr_SomeD:
  "strchr s c = Some i \<Longrightarrow> \<exists>pre post. s = pre @ c # post \<and> c \<notin> set pre \<and> i = length pre"
proof (induction s arbitrary: i)
  case Nil
  then show ?case by simp
next
  case (Cons x xs)
  show ?case
  proof (cases "x = c")
    case True
    with Cons.prems have "i = 0" by simp
    with True show ?thesis by (intro exI [of _ "[]"] exI [of _ xs]) simp
  next
    case False
    with Cons.prems obtain j where j: "strchr xs c = Some j" "i = Suc j" by auto
    from Cons.IH [OF j(1)] obtain pre post
      where "xs = pre @ c # post" "c \<notin> set pre" "j = length pre" by blast
    with False j show ?thesis
      by (intro exI [of _ "x # pre"] exI [of _ post]) simp
  qed
qed

lemma strstr_single: "strstr s [c] = strchr s c"
  by (induction s) (auto simp: strncmp_prefix_def)

lemma skip_spaces_append:
  "\<forall>c\<in>set ws. isspace c \<Longrightarrow> skip_spaces (ws @ s) = skip_spaces s"
  by (simp add: skip_spaces_def dropWhile_append)

lemma skip_spaces_nonspace:
  "\<not> isspace c \<Longrightarrow> skip_spaces (c # s) = c # s"
  by (simp add: skip_spaces_def)

lemma skip_spaces_idem: "skip_spaces (skip_spaces s) = skip_spaces s"
  by (simp add: skip_spaces_def dropWhile_idem)

lemma function_keyword_iff:
  "function_keyword pos \<longleftrightarrow> (\<exists>c rest. pos = ''function'' @ c # rest \<and> isspace c)"
proof
  have len: "length ''function'' = 8" by simp
  assume k: "function_keyword pos"
  then have t: "take 8 pos = ''function''"
    and dd: "case drop 8 pos of [] \<Rightarrow> False | c # _ \<Rightarrow> isspace c"
    unfolding function_keyword_def strncmp_prefix_def len by simp_all
  from dd obtain c rest where d: "drop 8 pos = c # rest" and c: "isspace c"
    by (cases "drop 8 pos") simp_all
  have "pos = take 8 pos @ drop 8 pos" by simp
  then have "pos = ''function'' @ c # rest" by (simp only: t d)
  with c show "\<exists>c rest. pos = ''function'' @ c # rest \<and> isspace c"
    by (intro exI [of _ c] exI [of _ rest] conjI)
next
  assume "\<exists>c rest. pos = ''function'' @ c # rest \<and> isspace c"
  then show "function_keyword pos"
    by (elim exE conjE) (simp add: function_keyword_def strncmp_prefix_def)
qed

lemma bare_forward:
  assumes p: "strchr pos (CHR ''('') = Some p" and p0: "0 < p"
    and al: "list_all (\<lambda>c. isalnum c \<or> c = CHR ''_'') (take p pos)"
    and q: "strchr (drop p pos) (CHR '')'') = Some q"
    and b: "strchr (drop (p + q) pos) (CHR ''{'') = Some b"
    and sp: "list_all isspace (take (b - 1) (drop (p + q + 1) pos))"
  shows "\<exists>name args ws rest.
           pos = name @ ''('' @ args @ '')'' @ ws @ ''{'' @ rest \<and> name \<noteq> [] \<and>
           (\<forall>c\<in>set name. isalnum c \<or> c = CHR ''_'') \<and> CHR '')'' \<notin> set args \<and>
           (\<forall>c\<in>set ws. isspace c)"
proof -
  from strchr_SomeD [OF p] obtain name post1
    where pos: "pos = name @ CHR ''('' # post1" and pn: "p = length name" by blast
  have d1: "drop p pos = CHR ''('' # post1" by (simp add: pos pn)
  from q obtain q' where q': "strchr post1 (CHR '')'') = Some q'" and qq: "q = Suc q'"
    unfolding d1 by auto
  from strchr_SomeD [OF q'] obtain args post2
    where post1: "post1 = args @ CHR '')'' # post2" and na: "CHR '')'' \<notin> set args"
      and qa: "q' = length args" by blast
  have d2: "drop (p + q) pos = CHR '')'' # post2" by (simp add: pos pn qq post1 qa)
  from b obtain b' where b': "strchr post2 (CHR ''{'') = Some b'" and bb: "b = Suc b'"
    unfolding d2 by auto
  from strchr_SomeD [OF b'] obtain ws rest
    where post2: "post2 = ws @ CHR ''{'' # rest" and bw: "b' = length ws" by blast
  have d3: "drop (p + q + 1) pos = post2" by (simp add: pos pn qq post1 qa)
  have ws: "\<forall>c\<in>set ws. isspace c"
    using sp unfolding d3 by (simp add: bb post2 bw list_all_iff)
  have nm: "\<forall>c\<in>set name. isalnum c \<or> c = CHR ''_''"
    using al by (simp add: pos pn list_all_iff)
  have "name \<noteq> []" using p0 pn by simp
  moreover have "pos = name @ ''('' @ args @ '')'' @ ws @ ''{'' @ rest"
    by (simp add: pos post1 post2)
  ultimately show ?thesis
    using nm na ws
    by (intro exI [of _ name] exI [of _ args] exI [of _ ws] exI [of _ rest] conjI)
qed

lemma not_space_brace: "\<not> isspace (CHR ''{'')"
  by (simp add: isspace_def)

lemma bare_backward:
  assumes pos: "pos = name @ ''('' @ args @ '')'' @ ws @ ''{'' @ rest" and n0: "name \<noteq> []"
    and nm: "\<forall>c\<in>set name. isalnum c \<or> c = CHR ''_''" and na: "CHR '')'' \<notin> set args"
    and ws: "\<forall>c\<in>set ws. isspace c"
  shows "strchr pos (CHR ''('') = Some (length name) \<and>
         list_all (\<lambda>c. isalnum c \<or> c = CHR ''_'') (take (length name) pos) \<and>
         strchr (drop (length name) pos) (CHR '')'') = Some (Suc (length args)) \<and>
         strchr (drop (length name + Suc (length args)) pos) (CHR ''{'') =
           Some (Suc (length ws)) \<and>
         list_all isspace
           (take (Suc (length ws) - 1) (drop (length name + Suc (length args) + 1) pos))"
proof -
  have "CHR ''('' \<notin> set name" using nm by (auto simp: isalnum_def)
  then have p: "strchr pos (CHR ''('') = Some (length name)"
    unfolding pos using strchr_split [of "CHR ''(''" name] by simp
  have "CHR '')'' \<notin> set (CHR ''('' # args)" using na by simp
  then have q: "strchr (drop (length name) pos) (CHR '')'') = Some (Suc (length args))"
    unfolding pos using strchr_split [of "CHR '')''" "CHR ''('' # args"] by simp
  have "CHR ''{'' \<notin> set (CHR '')'' # ws)" using ws not_space_brace by auto
  then have b: "strchr (drop (length name + Suc (length args)) pos) (CHR ''{'') =
                  Some (Suc (length ws))"
    unfolding pos using strchr_split [of "CHR ''{''" "CHR '')'' # ws"] by simp
  have sp: "list_all isspace (take (Suc (length ws) - 1)
              (drop (length name + Suc (length args) + 1) pos))"
    unfolding pos using ws by (simp add: list_all_iff)
  have al: "list_all (\<lambda>c. isalnum c \<or> c = CHR ''_'') (take (length name) pos)"
    unfolding pos using nm by (simp add: list_all_iff)
  from p q b sp al show ?thesis by (intro conjI)
qed

lemma iff_disj_cases: "(K \<Longrightarrow> L) \<Longrightarrow> (\<not> K \<Longrightarrow> (L \<longleftrightarrow> B)) \<Longrightarrow> (L \<longleftrightarrow> K \<or> B)"
  by blast

lemma strchr_first_index:
  "strchr s c = (if c \<in> set s then Some (first_index s c) else None)"
  by (induction s) (auto simp: first_index_def)

lemma extract_tag_content_trimmed:
  "extract_tag_content line = Some content \<Longrightarrow> skip_spaces content = content"
  by (auto simp: extract_tag_content_def Let_def skip_spaces_idem split: option.splits)

lemma not_space_pipe: "\<not> isspace (CHR ''|'')"
  by (simp add: isspace_def)

lemma skip_spaces_hd:
  "s \<noteq> [] \<Longrightarrow> \<not> isspace (hd s) \<Longrightarrow> skip_spaces (s @ t) = s @ t"
  by (cases s) (simp_all add: skip_spaces_def)

lemma drop_trailing_spaces_append:
  assumes "s \<noteq> []" and "\<not> isspace (last s)" and "\<forall>c\<in>set ws. isspace c"
  shows "drop_trailing_spaces (s @ ws) = s"
proof -
  have "dropWhile isspace (rev ws @ rev s) = dropWhile isspace (rev s)"
    using assms(3) by (simp add: dropWhile_append)
  moreover have "dropWhile isspace (rev s) = rev s"
    using assms(1,2) by (cases "rev s") (auto simp: hd_rev [symmetric])
  ultimately show ?thesis
    by (simp add: drop_trailing_spaces_def)
qed

lemma pipe_shape_common:
  assumes lead: "\<forall>c\<in>set lead. isspace c"
    and o0: "opt \<noteq> []" and oh: "\<not> isspace (hd opt)" and ol: "\<not> isspace (last opt)"
    and op: "CHR ''|'' \<notin> set opt"
    and ws1: "\<forall>c\<in>set ws1. isspace c" and ws2: "\<forall>c\<in>set ws2. isspace c"
    and t0: "tok \<noteq> []" and th: "\<not> isspace (hd tok)"
  shows "parse_option_content (lead @ opt @ ws1 @ ''|'' @ ws2 @ tok @ tail) =
           Some (opt,
                 (case strchr (tok @ tail) (CHR '' '') of
                    Some second_space \<Rightarrow> drop (second_space + 1) (tok @ tail)
                  | None \<Rightarrow> []),
                 (case angle_arg_spec opt of
                    Some a \<Rightarrow> Some a
                  | None \<Rightarrow> angle_arg_spec (tok @ tail)))"
proof -
  define X where "X = opt @ ws1 @ ''|'' @ ws2 @ tok @ tail"
  have sk: "skip_spaces (lead @ X) = X"
    using lead o0 oh unfolding X_def by (simp add: skip_spaces_append skip_spaces_hd)
  have X0: "X \<noteq> []" using o0 by (simp add: X_def)
  have "CHR ''|'' \<notin> set (opt @ ws1)" using op ws1 not_space_pipe by auto
  then have "strchr ((opt @ ws1) @ CHR ''|'' # (ws2 @ tok @ tail)) (CHR ''|'') =
               Some (length (opt @ ws1))"
    by (rule strchr_split)
  then have pipe: "strstr X ''|'' = Some (length opt + length ws1)"
    by (simp add: strstr_single X_def)
  have tk: "take (length opt + length ws1) X = opt @ ws1" by (simp add: X_def)
  have dr: "drop (Suc (length opt + length ws1)) X = ws2 @ tok @ tail" by (simp add: X_def)
  have o: "drop_trailing_spaces (opt @ ws1) = opt"
    using o0 ol ws1 by (rule drop_trailing_spaces_append)
  have d: "skip_spaces (ws2 @ tok @ tail) = tok @ tail"
    using ws2 t0 th by (simp add: skip_spaces_append skip_spaces_hd)
  show ?thesis
    unfolding X_def [symmetric]
    by (simp add: parse_option_content_def sk X0 pipe tk dr o d Let_def)
qed

lemma fgets_take_line:
  "CHR 0x0A \<notin> set l \<Longrightarrow> length l < k \<Longrightarrow>
     fgets_take k (l @ CHR 0x0A # rest) = l @ [CHR 0x0A]"
  by (induction l arbitrary: k) auto

lemma fgets_text_line:
  assumes "text_line l"
  shows "fgets MAX_LINE_LENGTH (l @ CHR 0x0A # rest) = Some (l @ [CHR 0x0A], rest)"
proof -
  have "fgets_take (MAX_LINE_LENGTH - 1) (l @ CHR 0x0A # rest) = l @ [CHR 0x0A]"
    using assms by (intro fgets_take_line) (simp_all add: text_line_def)
  then show ?thesis by (simp add: fgets_def)
qed

lemma line_of_text_line:
  assumes "text_line l"
  shows "strip_newline (c_str (l @ [CHR 0x0A])) = l"
proof -
  have "c_str (l @ [CHR 0x0A]) = l @ [CHR 0x0A]"
    using assms by (auto simp: c_str_def text_line_def)
  then show ?thesis by (simp add: strip_newline_def)
qed

lemma comment_line_has_hash:
  assumes "is_comment_line l"
  shows "\<exists>h. strchr l (CHR ''#'') = Some h \<and>
             skip_spaces (drop (h + 1) l) = comment_text l"
proof -
  from assms obtain r where r: "dropWhile isspace l = CHR ''#'' # r"
    by (auto simp: is_comment_line_def skip_spaces_def split: list.splits)
  have "CHR ''#'' \<in> set (dropWhile isspace l)" by (simp add: r)
  then have "CHR ''#'' \<in> set l" by (rule set_dropWhileD)
  then obtain h where h: "strchr l (CHR ''#'') = Some h"
    using strchr_None_iff [of l "CHR ''#''"] by (cases "strchr l (CHR ''#'')") auto
  from strchr_SomeD [OF h] obtain pre post
    where l: "l = pre @ CHR ''#'' # post" and np: "CHR ''#'' \<notin> set pre" and hl: "h = length pre"
    by blast
  have "dropWhile (\<lambda>c. c \<noteq> CHR ''#'') l = CHR ''#'' # post"
    unfolding l using np by (auto simp: dropWhile_append3)
  then have "comment_text l = skip_spaces post"
    by (simp add: comment_text_def skip_spaces_def)
  moreover have "drop (h + 1) l = post" by (simp add: l hl)
  ultimately show ?thesis using h by simp
qed

lemma collect_loop_lines:
  assumes "\<forall>l\<in>set ls. text_line l \<and> continuation_line l" and "next_line_stops stop"
  shows "collect_loop pos acc (concat (map (\<lambda>l. l @ [CHR 0x0A]) ls) @ stop) =
           (acc @ concat (map (\<lambda>l. CHR 0x0A # comment_text l) ls),
            if ls = [] \<and> stop \<noteq> [] then pos else stop)"
  using assms(1)
proof (induction ls arbitrary: pos acc)
  case Nil
  show ?case
  proof (cases "fgets MAX_LINE_LENGTH stop")
    case None
    then have "stop = []" by (simp add: fgets_def Let_def split: if_splits)
    with None show ?thesis by (subst collect_loop.simps) simp
  next
    case (Some p)
    then have "stop \<noteq> []" by (auto simp: fgets_def)
    moreover obtain buf rest where p: "p = (buf, rest)" by (cases p)
    moreover have "\<not> continuation_line (strip_newline (c_str buf))"
      using assms(2) Some p by (simp add: next_line_stops_def)
    ultimately show ?thesis
      using Some by (subst collect_loop.simps) (auto simp: continuation_line_def)
  qed
next
  case (Cons l ls)
  let ?rest = "concat (map (\<lambda>l. l @ [CHR 0x0A]) ls) @ stop"
  have tl: "text_line l" and cl: "continuation_line l" using Cons.prems by simp_all
  have f: "fgets MAX_LINE_LENGTH (l @ CHR 0x0A # ?rest) = Some (l @ [CHR 0x0A], ?rest)"
    using tl by (rule fgets_text_line)
  have ln: "strip_newline (c_str (l @ [CHR 0x0A])) = l"
    using tl by (rule line_of_text_line)
  from cl obtain h where h: "strchr l (CHR ''#'') = Some h"
    and ct: "skip_spaces (drop (h + 1) l) = comment_text l"
    using comment_line_has_hash [of l] by (auto simp: continuation_line_def)
  have IH: "collect_loop ?rest (acc @ [CHR 0x0A] @ comment_text l) ?rest =
              ((acc @ [CHR 0x0A] @ comment_text l) @
                 concat (map (\<lambda>l. CHR 0x0A # comment_text l) ls),
               if ls = [] \<and> stop \<noteq> [] then ?rest else stop)"
    using Cons.prems by (intro Cons.IH) simp
  have "collect_loop pos acc (l @ CHR 0x0A # ?rest) =
          collect_loop ?rest (acc @ [CHR 0x0A] @ comment_text l) ?rest"
    using cl h ct
    by (subst collect_loop.simps) (simp add: f ln continuation_line_def Let_def)
  moreover have "(if ls = [] \<and> stop \<noteq> [] then ?rest else stop) = stop"
    by simp
  ultimately show ?case
    using IH by simp
qed

lemma block0_update:
  "i \<noteq> 0 \<or> function_name d = function_name (xs ! 0) \<Longrightarrow>
     function_name (xs[i := d] ! 0) = function_name (xs ! 0)"
  by (cases xs; cases i) auto

lemma set_block_file_block_name:
  "current_block st \<noteq> 0 \<or> function_name d = function_name (the_block st) \<Longrightarrow>
     file_block_name (set_block st d) = file_block_name st"
  unfolding file_block_name_def set_block_def the_block_def
  by (cases "current_block st = 0") (simp_all add: block0_update)

lemma on_current_block_file_block_name:
  assumes "\<And>d. function_name (snd (handler d)) = function_name d"
  shows "file_block_name (snd (on_current_block st handler)) = file_block_name st"
  using assms [of "the_block st"]
  by (simp add: on_current_block_def case_prod_beta set_block_file_block_name)

lemma handlers_keep_function_name:
  "function_name (snd (process_file_metadata_tag d tag c)) = function_name d"
  "function_name (snd (process_argument_tag d c)) = function_name d"
  "function_name (snd (process_parameter_tag d c)) = function_name d"
  "function_name (snd (process_return_tag d c)) = function_name d"
  "function_name (snd (process_returns_tag d c)) = function_name d"
  "function_name (snd (process_exitcode_tag d c)) = function_name d"
  "function_name (snd (add_example_to_docblock d c)) = function_name d"
  "function_name (snd (process_alert_tag d tag c)) = function_name d"
  "function_name (snd (process_shellcheck_line d c)) = function_name d"
  "function_name (snd (extract_shebang c d)) = function_name d"
  by (simp_all add: process_file_metadata_tag_def process_argument_tag_def Let_def
        process_parameter_tag_def process_return_tag_def process_returns_tag_def
        process_exitcode_tag_def add_example_to_docblock_def process_alert_tag_def
        process_shellcheck_line_def add_shellcheck_directive_def extract_shebang_def
        case_prod_beta split: option.splits)

lemma collect_keeps_blocks:
  "blocks (snd (state_collect_continued_content st c)) = blocks st"
  "current_block (snd (state_collect_continued_content st c)) = current_block st"
  "blocks (snd (process_example_tag st c)) = blocks st"
  "current_block (snd (process_example_tag st c)) = current_block st"
  by (simp_all add: state_collect_continued_content_def process_example_tag_def case_prod_beta)

lemma collect_keeps_file_block:
  "file_block_name (snd (state_collect_continued_content st c)) = file_block_name st"
  "the_block (snd (state_collect_continued_content st c)) = the_block st"
  "file_block_name (snd (process_example_tag st c)) = file_block_name st"
  by (simp_all add: file_block_name_def the_block_def collect_keeps_blocks)

lemma process_example_using_state_file_block_name:
  "file_block_name (snd (process_example_using_state st c)) = file_block_name st"
  by (simp add: process_example_using_state_def case_prod_beta
        on_current_block_file_block_name handlers_keep_function_name collect_keeps_file_block)

lemma state_process_tag_file_block_name:
  assumes "tag \<noteq> ''function'' \<or> current_block st \<noteq> 0"
  shows "file_block_name (snd (state_process_tag st tag content)) = file_block_name st"
proof (cases "tag = ''function''")
  case True
  with assms have "current_block st \<noteq> 0" by simp
  then have "file_block_name (set_block st d) = file_block_name st" for d
    by (simp add: set_block_file_block_name)
  then show ?thesis
    using True by (simp add: state_process_tag_def is_file_level_tag_def Let_def
                             file_block_name_def)
next
  case False
  then show ?thesis
    unfolding state_process_tag_def
    by (simp add: case_prod_beta Let_def on_current_block_file_block_name
          handlers_keep_function_name set_block_file_block_name collect_keeps_file_block
          collect_keeps_blocks process_example_using_state_file_block_name
          del: set_simps)
qed

lemma open_block_file_block_name:
  "1 \<le> bc \<Longrightarrow> file_block_name (fst (open_block st bc)) = file_block_name st"
  "current_block (fst (open_block st bc)) = bc"
  "snd (open_block st bc) = bc + 1"
  by (simp_all add: open_block_def file_block_name_def block0_update)

lemma process_line_file_block_name:
  assumes "1 \<le> bc"
  shows "file_block_name (fst (process_line st bc line)) = file_block_name st \<and>
         bc \<le> snd (process_line st bc line)"
proof -
  define st1 where
    "st1 = (if is_shellcheck_directive line \<and> current_block st \<noteq> 0
            then snd (on_current_block st (\<lambda>d. process_shellcheck_line d line))
            else st)"
  have f1: "file_block_name st1 = file_block_name st"
    by (simp add: st1_def on_current_block_file_block_name handlers_keep_function_name)
  have ob: "file_block_name (fst (open_block st1 bc)) = file_block_name st"
    using assms by (simp add: open_block_file_block_name f1)
  have obc: "current_block (fst (open_block st1 bc)) \<noteq> 0"
    using assms by (simp add: open_block_file_block_name)
  have tag1: "t \<noteq> ''function'' \<Longrightarrow>
                file_block_name (snd (state_process_tag st1 t c)) = file_block_name st" for t c
    by (simp add: state_process_tag_file_block_name f1)
  have tag2: "file_block_name (snd (state_process_tag (fst (open_block st1 bc)) t c)) =
                file_block_name st" for t c
    using obc by (simp add: state_process_tag_file_block_name ob)
  have sb1: "current_block st1 \<noteq> 0 \<Longrightarrow> file_block_name (set_block st1 d) = file_block_name st"
    for d
    by (simp add: set_block_file_block_name f1)
  have sb2: "file_block_name (set_block (fst (open_block st1 bc)) d) = file_block_name st" for d
    using obc by (simp add: set_block_file_block_name ob)
  have ib: "file_block_name (s\<lparr>in_docblock := b\<rparr>) = file_block_name s" for s b
    by (simp add: file_block_name_def)
  show ?thesis
    unfolding process_line_def Let_def st1_def [symmetric]
    by (simp add: case_prod_beta tag1 tag2 sb1 sb2 ob f1 ib open_block_file_block_name
             split: option.splits)
qed

lemma body_loop_file_block_name:
  "1 \<le> bc \<Longrightarrow>
     file_block_name (fst (body_loop max_blocks st bc)) = file_block_name st \<and>
     1 \<le> snd (body_loop max_blocks st bc)"
proof (induction max_blocks st bc rule: body_loop.induct)
  case (1 max_blocks st block_count)
  show ?case
  proof (cases "fgets MAX_LINE_LENGTH (file_text st)")
    case None
    then show ?thesis using "1.prems" by (subst (1 2) body_loop.simps) simp
  next
    case (Some p)
    obtain buf rest where p: "p = (buf, rest)" by (cases p)
    show ?thesis
    proof (cases "block_count < max_blocks")
      case False
      then show ?thesis
        using Some p "1.prems"
        by (subst (1 2) body_loop.simps) (simp add: file_block_name_def)
    next
      case True
      define st' where "st' = st\<lparr>file_text := rest, line_number := line_number st + 1\<rparr>"
      define r where "r = process_line st' block_count (strip_newline (c_str buf))"
      have pl: "file_block_name (fst r) = file_block_name st'" "block_count \<le> snd r"
        using process_line_file_block_name [OF "1.prems", of st' "strip_newline (c_str buf)"]
        by (simp_all add: r_def)
      have s': "file_block_name st' = file_block_name st"
        by (simp add: st'_def file_block_name_def)
      have nb: "\<not> \<not> block_count < max_blocks" using True by simp
      have "1 \<le> snd r" using pl(2) "1.prems" by simp
      from "1.IH" [OF Some p [symmetric] nb r_def [unfolded st'_def] this]
      have "file_block_name (fst (body_loop max_blocks (fst r) (snd r))) = file_block_name (fst r)
            \<and> 1 \<le> snd (body_loop max_blocks (fst r) (snd r))" .
      moreover have "body_loop max_blocks st block_count = body_loop max_blocks (fst r) (snd r)"
        using Some p True
        by (subst body_loop.simps) (simp add: r_def st'_def Let_def)
      ultimately show ?thesis
        using pl(1) s' by simp
    qed
  qed
qed

lemma metadata_loop_function_name:
  "function_name (metadata_loop d f) = function_name d"
proof (induction d f rule: metadata_loop.induct)
  case (1 d f)
  show ?case
  proof (cases "fgets MAX_LINE_LENGTH f")
    case None
    then show ?thesis by (subst metadata_loop.simps) simp
  next
    case (Some p)
    obtain buf rest where p: "p = (buf, rest)" by (cases p)
    show ?thesis
      using Some p "1.IH" [OF Some p [symmetric] refl]
      by (subst metadata_loop.simps)
         (auto simp: Let_def handlers_keep_function_name split: option.splits)
  qed
qed

lemmas line_eval =
  is_comment_line_def is_tag_line_def static_is_tag_line_def TAG_PREFIX_def
  is_special_annotation_def is_shellcheck_directive_def skip_spaces_def isspace_def
  strncmp_prefix_def strncasecmp_prefix_def tolower_def fgets_def MAX_LINE_LENGTH_def
  c_str_def strip_newline_def

section \<open>Properties\<close>

text \<open>
  C10. Processing the file-level tag \<open>@since\<close> stores its content in the
  \<open>author_contact\<close> field of the Docblock, replacing whatever was stored there; no other
  field changes, so a later \<open>@since\<close> replaces the recorded author contact.
\<close>

theorem since_overwrites_author_contact:
  "process_file_metadata_tag docblock ''since'' content =
     (True, docblock\<lparr>author_contact := Some content\<rparr>)"
  by (simp add: process_file_metadata_tag_def)



text \<open>
  C8. On a Docblock with no example, the first \<open>@example\<close> stores its body as it is, and
  a second one yields the first body, then two newlines, then the second body.
\<close>

theorem two_examples_are_joined:
  assumes "example docblock = None"
  shows "add_example_to_docblock docblock body1 = (True, docblock\<lparr>example := Some body1\<rparr>) \<and>
         add_example_to_docblock (snd (add_example_to_docblock docblock body1)) body2 =
           (True, docblock\<lparr>example := Some (body1 @ [CHR 0x0A, CHR 0x0A] @ body2)\<rparr>)"
  using assms by (simp add: add_example_to_docblock_def)

theorem two_examples_are_joined_witness:
  "example init_docblock = None \<and>
   add_example_to_docblock init_docblock ''foo 1'' =
     (True, init_docblock\<lparr>example := Some ''foo 1''\<rparr>) \<and>
   add_example_to_docblock (snd (add_example_to_docblock init_docblock ''foo 1'')) ''foo 2'' =
     (True, init_docblock\<lparr>example := Some (''foo 1'' @ [CHR 0x0A, CHR 0x0A] @ ''foo 2'')\<rparr>)"
proof -
  have h: "example init_docblock = None" by (simp add: init_docblock_def)
  show ?thesis
    using h two_examples_are_joined [OF h, of "''foo 1''" "''foo 2''"] by blast
qed

text \<open>
  C2 (as amended). Parsing the option content \<open>-v | verbose output\<close> yields the option
  token \<open>-v\<close>, the description \<open>output\<close> and no argument specifier. In the
  pipe-separated shape the option token is everything before the first \<open>|\<close> with the
  whitespace around it trimmed, and the description is everything after the first space
  that follows the first token after the pipe: one token is skipped and the rest is
  taken, and the description is empty when no space follows that token. The argument
  specifier comes from an angle-bracket pair in the option token or else in the text
  after the pipe.
\<close>

theorem option_pipe_shape:
  assumes "\<forall>c\<in>set lead. isspace c"
    and "opt \<noteq> []" and "\<not> isspace (hd opt)" and "\<not> isspace (last opt)"
    and "CHR ''|'' \<notin> set opt"
    and "\<forall>c\<in>set ws1. isspace c" and "\<forall>c\<in>set ws2. isspace c"
    and "tok \<noteq> []" and "\<not> isspace (hd tok)" and "CHR '' '' \<notin> set tok"
  shows "parse_option_content (lead @ opt @ ws1 @ ''|'' @ ws2 @ tok @ '' '' @ rest) =
           Some (opt, rest,
                 case angle_arg_spec opt of
                   Some a \<Rightarrow> Some a
                 | None \<Rightarrow> angle_arg_spec (tok @ '' '' @ rest)) \<and>
         parse_option_content (lead @ opt @ ws1 @ ''|'' @ ws2 @ tok) =
           Some (opt, [],
                 case angle_arg_spec opt of Some a \<Rightarrow> Some a | None \<Rightarrow> angle_arg_spec tok)"
proof -
  have s1: "strchr (tok @ CHR '' '' # rest) (CHR '' '') = Some (length tok)"
    using assms(10) by (rule strchr_split)
  have s2: "strchr tok (CHR '' '') = None"
    using assms(10) by (simp add: strchr_None_iff)
  have a: "parse_option_content (lead @ opt @ ws1 @ ''|'' @ ws2 @ tok @ '' '' @ rest) =
           Some (opt, rest,
                 case angle_arg_spec opt of
                   Some a \<Rightarrow> Some a
                 | None \<Rightarrow> angle_arg_spec (tok @ '' '' @ rest))"
    using pipe_shape_common [OF assms(1-9), of "'' '' @ rest"] s1
    by (simp cong: option.case_cong)
  have b: "parse_option_content (lead @ opt @ ws1 @ ''|'' @ ws2 @ tok) =
           Some (opt, [],
                 case angle_arg_spec opt of Some a \<Rightarrow> Some a | None \<Rightarrow> angle_arg_spec tok)"
    using pipe_shape_common [OF assms(1-9), of "[]"] s2 by (simp cong: option.case_cong)
  from a b show ?thesis by (rule conjI)
qed

theorem option_pipe_shape_witness:
  "parse_option_content ''-v | verbose output'' = Some (''-v'', ''output'', None) \<and>
   parse_option_content ''-v | verbose'' = Some (''-v'', [], None)"
proof -
  have h: "\<forall>c\<in>set []. isspace c" "''-v'' \<noteq> []" "\<not> isspace (hd ''-v'')"
    "\<not> isspace (last ''-v'')" "CHR ''|'' \<notin> set ''-v''" "\<forall>c\<in>set '' ''. isspace c"
    "\<forall>c\<in>set '' ''. isspace c" "''verbose'' \<noteq> []" "\<not> isspace (hd ''verbose'')"
    "CHR '' '' \<notin> set ''verbose''"
    by (simp_all add: isspace_def)
  have g: "angle_arg_spec ''-v'' = None" "angle_arg_spec ''verbose output'' = None"
    "angle_arg_spec ''verbose'' = None"
    by (simp_all add: angle_arg_spec_def)
  show ?thesis
    using option_pipe_shape [OF h, of "''output''"] by (simp add: g)
qed

theorem option_pipe_example_counterexample:
  "parse_option_content ''-v | verbose output'' = Some (''-v'', ''output'', None)"
  by (simp add: parse_option_content_def skip_spaces_def isspace_def strncmp_prefix_def
                drop_trailing_spaces_def angle_arg_spec_def)

text \<open>
  C4 (as amended). A line is a tag line exactly when, after optional leading whitespace,
  it begins with the three characters \<open># @\<close>. The colon-delimited form is a tag line
  only with that prefix: \<open># @brief: text\<close> is one, the comment \<open>## @brief: text\<close> is not,
  although the tag extractor would read the tag \<open>brief\<close> and the content \<open>text\<close> from it.
\<close>

theorem tag_line_iff_prefix:
  "is_tag_line line \<longleftrightarrow>
     (\<exists>ws rest. (\<forall>c\<in>set ws. isspace c) \<and> line = ws @ ''# @'' @ rest)"
proof
  assume "is_tag_line line"
  then have t: "take (length TAG_PREFIX) (skip_spaces line) = TAG_PREFIX"
    by (simp only: is_tag_line_def static_is_tag_line_def strncmp_prefix_def)
  define r where "r = drop (length TAG_PREFIX) (skip_spaces line)"
  have d: "TAG_PREFIX @ r = skip_spaces line"
    using append_take_drop_id [of "length TAG_PREFIX" "skip_spaces line"]
    by (simp only: t r_def)
  have "line = takeWhile isspace line @ (TAG_PREFIX @ r)"
    unfolding d by (simp add: skip_spaces_def)
  moreover have "\<forall>c\<in>set (takeWhile isspace line). isspace c"
    by (auto dest: set_takeWhileD)
  ultimately show "\<exists>ws rest. (\<forall>c\<in>set ws. isspace c) \<and> line = ws @ ''# @'' @ rest"
    unfolding TAG_PREFIX_def
    by (intro exI [of _ "takeWhile isspace line"] exI [of _ r] conjI)
next
  assume "\<exists>ws rest. (\<forall>c\<in>set ws. isspace c) \<and> line = ws @ ''# @'' @ rest"
  then show "is_tag_line line"
  proof (elim exE conjE)
    fix ws rest
    assume ws: "\<forall>c\<in>set ws. isspace c" and l: "line = ws @ ''# @'' @ rest"
    have "skip_spaces (''# @'' @ rest) = ''# @'' @ rest"
      by (simp add: skip_spaces_def isspace_def)
    then have "skip_spaces line = ''# @'' @ rest"
      unfolding l using ws by (simp only: skip_spaces_append)
    then show "is_tag_line line"
      by (simp add: is_tag_line_def static_is_tag_line_def strncmp_prefix_def TAG_PREFIX_def)
  qed
qed

theorem tag_line_iff_prefix_witness:
  "is_tag_line ''  # @brief: text''"
proof (rule iffD2 [OF tag_line_iff_prefix])
  show "\<exists>ws rest. (\<forall>c\<in>set ws. isspace c) \<and> ''  # @brief: text'' = ws @ ''# @'' @ rest"
    by (rule exI [of _ "''  ''"], rule exI [of _ "''brief: text''"]) (simp add: isspace_def)
qed

theorem tag_line_colon_form_counterexample:
  "is_comment_line ''## @brief: text'' \<and>
   extract_tag_name ''## @brief: text'' = Some ''brief'' \<and>
   extract_tag_content ''## @brief: text'' = Some ''text'' \<and>
   \<not> is_tag_line ''## @brief: text''"
  by (simp add: is_comment_line_def is_tag_line_def static_is_tag_line_def skip_spaces_def
                isspace_def strncmp_prefix_def TAG_PREFIX_def extract_tag_name_def
                extract_tag_content_def tag_token_def)

text \<open>
  C5 (as amended). \<open>is_function_declaration\<close> returns true exactly when the line, after
  leading whitespace, either begins with the keyword \<open>function\<close> followed by a
  whitespace character (whatever follows it), or has the bare form: a non-empty name of
  alphanumerics and underscores, \<open>(\<close>, text without \<open>)\<close>, \<open>)\<close>, only whitespace, \<open>{\<close>, and
  then anything.
\<close>

theorem function_declaration_iff:
  "is_function_declaration line \<longleftrightarrow>
     (\<exists>c rest. dropWhile isspace line = ''function'' @ c # rest \<and> isspace c) \<or>
     (\<exists>name args ws rest.
        dropWhile isspace line = name @ ''('' @ args @ '')'' @ ws @ ''{'' @ rest \<and>
        name \<noteq> [] \<and> (\<forall>c\<in>set name. isalnum c \<or> c = CHR ''_'') \<and>
        CHR '')'' \<notin> set args \<and> (\<forall>c\<in>set ws. isspace c))"
  (is "?L \<longleftrightarrow> ?K \<or> ?B")
proof (rule iff_disj_cases)
  assume ?K
  then have "function_keyword (dropWhile isspace line)"
    by (rule iffD2 [OF function_keyword_iff])
  then show ?L
    by (simp add: is_function_declaration_def skip_spaces_def)
next
  define pos where "pos = dropWhile isspace line"
  assume nK: "\<not> ?K"
  have nk: "\<not> function_keyword pos"
  proof
    assume "function_keyword pos"
    then have ?K unfolding pos_def by (rule iffD1 [OF function_keyword_iff])
    with nK show False by (rule notE)
  qed
  show "?L \<longleftrightarrow> ?B"
    proof
      assume L: ?L
      from L nk obtain p where p: "strchr pos (CHR ''('') = Some p"
        by (cases "strchr pos (CHR ''('')")
           (simp_all add: is_function_declaration_def skip_spaces_def pos_def)
      from L nk p have p0: "0 < p"
        by (cases "0 < p") (simp_all add: is_function_declaration_def skip_spaces_def pos_def)
      from L nk p p0 have al: "list_all (\<lambda>c. isalnum c \<or> c = CHR ''_'') (take p pos)"
        by (cases "list_all (\<lambda>c. isalnum c \<or> c = CHR ''_'') (take p pos)")
           (simp_all add: is_function_declaration_def skip_spaces_def pos_def)
      from L nk p p0 al obtain q where q: "strchr (drop p pos) (CHR '')'') = Some q"
        by (cases "strchr (drop p pos) (CHR '')'')")
           (simp_all add: is_function_declaration_def skip_spaces_def pos_def)
      from L nk p p0 al q obtain b where b: "strchr (drop (p + q) pos) (CHR ''{'') = Some b"
        by (cases "strchr (drop (p + q) pos) (CHR ''{'')")
           (simp_all add: is_function_declaration_def skip_spaces_def pos_def)
      from L nk p p0 al q b
      have sp: "list_all isspace (take (b - 1) (drop (p + q + 1) pos))"
        by (simp add: is_function_declaration_def skip_spaces_def pos_def)
      from bare_forward [OF p p0 al q b sp] show ?B
        unfolding pos_def .
    next
      assume ?B
      then show ?L
      proof (elim exE conjE)
        fix name args ws rest
        assume pos: "dropWhile isspace line = name @ ''('' @ args @ '')'' @ ws @ ''{'' @ rest"
          and n0: "name \<noteq> []"
          and nm: "\<forall>c\<in>set name. isalnum c \<or> c = CHR ''_''"
          and na: "CHR '')'' \<notin> set args" and ws: "\<forall>c\<in>set ws. isspace c"
        from bare_backward [OF pos [folded pos_def] n0 nm na ws] n0 nk
        show ?L
          by (simp add: is_function_declaration_def skip_spaces_def pos_def [symmetric])
      qed
    qed
qed

theorem function_declaration_iff_witness:
  "is_function_declaration ''  foo_1(x) {''"
proof -
  have "dropWhile isspace ''  foo_1(x) {'' = ''foo_1'' @ ''('' @ ''x'' @ '')'' @ '' '' @ ''{'' @ [] \<and>
        ''foo_1'' \<noteq> [] \<and> (\<forall>c\<in>set ''foo_1''. isalnum c \<or> c = CHR ''_'') \<and>
        CHR '')'' \<notin> set ''x'' \<and> (\<forall>c\<in>set '' ''. isspace c)"
    by (simp add: isspace_def isalnum_def)
  then have "\<exists>name args ws rest.
        dropWhile isspace ''  foo_1(x) {'' = name @ ''('' @ args @ '')'' @ ws @ ''{'' @ rest \<and>
        name \<noteq> [] \<and> (\<forall>c\<in>set name. isalnum c \<or> c = CHR ''_'') \<and>
        CHR '')'' \<notin> set args \<and> (\<forall>c\<in>set ws. isspace c)"
    by (intro exI [of _ "''foo_1''"] exI [of _ "''x''"] exI [of _ "'' ''"] exI [of _ "[]"])
  then show ?thesis
    by (rule iffD2 [OF function_declaration_iff, OF disjI2])
qed

theorem function_keyword_counterexample:
  "is_function_declaration ''function x'' \<and>
   CHR ''('' \<notin> set ''function x'' \<and> CHR ''{'' \<notin> set ''function x''"
  by (simp add: is_function_declaration_def skip_spaces_def isspace_def function_keyword_def
                strncmp_prefix_def)

text \<open>
  C9. For a non-empty \<open>@see\<close> content, as the tag extractor delivers it (leading
  whitespace trimmed), the reference is a Markdown link (not internal, the name is the
  text between \<open>[\<close> and \<open>]\<close>, the URL the text between \<open>(\<close> and \<open>)\<close>) exactly when the four
  characters are present and their first occurrences are ordered \<open>[\<close>, \<open>]\<close>, \<open>(\<close>, \<open>)\<close>;
  otherwise the whole content is the name of an internal reference without URL.
\<close>

theorem see_content_markdown_or_internal:
  assumes "extract_tag_content line = Some content" and "content \<noteq> []"
  shows "parse_see_content content = Some (see_reference content)"
proof -
  have "skip_spaces content = content"
    using assms(1) by (rule extract_tag_content_trimmed)
  then show ?thesis
    using assms(2)
    by (simp add: parse_see_content_def see_reference_def markdown_link_shape_def
                  text_between_def strchr_first_index)
qed

theorem see_content_markdown_or_internal_witness:
  "extract_tag_content ''# @see [Docs](http://a.b/c)'' = Some ''[Docs](http://a.b/c)'' \<and>
   ''[Docs](http://a.b/c)'' \<noteq> [] \<and>
   parse_see_content ''[Docs](http://a.b/c)'' = Some (''Docs'', Some ''http://a.b/c'', False) \<and>
   extract_tag_content ''# @see (x) [a](b)'' = Some ''(x) [a](b)'' \<and>
   parse_see_content ''(x) [a](b)'' = Some (''(x) [a](b)'', None, True)"
proof -
  have e1: "extract_tag_content ''# @see [Docs](http://a.b/c)'' = Some ''[Docs](http://a.b/c)''"
    by (simp add: extract_tag_content_def strncmp_prefix_def tag_token_def skip_spaces_def
                  isspace_def)
  have e2: "extract_tag_content ''# @see (x) [a](b)'' = Some ''(x) [a](b)''"
    by (simp add: extract_tag_content_def strncmp_prefix_def tag_token_def skip_spaces_def
                  isspace_def)
  have n1: "''[Docs](http://a.b/c)'' \<noteq> []" by simp
  have n2: "''(x) [a](b)'' \<noteq> []" by simp
  have r1: "see_reference ''[Docs](http://a.b/c)'' = (''Docs'', Some ''http://a.b/c'', False)"
    by (simp add: see_reference_def markdown_link_shape_def first_index_def text_between_def)
  have r2: "see_reference ''(x) [a](b)'' = (''(x) [a](b)'', None, True)"
    by (simp add: see_reference_def markdown_link_shape_def first_index_def text_between_def)
  show ?thesis
    using see_content_markdown_or_internal [OF e1 n1]
          see_content_markdown_or_internal [OF e2 n2] e1 n1 e2
    by (simp only: r1 r2 simp_thms)
qed





text \<open>
  C3 (as amended). For a file that can be opened and \<open>max_blocks\<close> of at least 1,
  \<open>parse_shell_file\<close> returns a count of at least 1 and \<open>docblocks[0]\<close> never has a
  function name; for a file that cannot be opened it returns 0, so that no Docblock is
  produced.
\<close>

theorem parse_shell_file_file_block:
  "(fs file_path = Some text \<and> 0 < max_blocks \<longrightarrow>
      1 \<le> fst (parse_shell_file fs file_path max_blocks) \<and>
      function_name (snd (parse_shell_file fs file_path max_blocks) ! 0) = None) \<and>
   (fs file_path = None \<longrightarrow> fst (parse_shell_file fs file_path max_blocks) = 0)"
proof (intro conjI impI)
  assume a: "fs file_path = Some text \<and> 0 < max_blocks"
  define d0 where
    "d0 = metadata_loop (init_docblock\<lparr>file_name := Some file_path\<rparr>) text"
  define st0 where
    "st0 = \<lparr> file_text = text, current_block = 0, line_number = 0, in_docblock = False,
             blocks = (replicate (nat max_blocks) init_docblock)
                        [0 := init_docblock\<lparr>file_name := Some file_path\<rparr>, 0 := d0] \<rparr>"
  have n: "0 < nat max_blocks" using a by simp
  have "function_name d0 = None"
    by (simp add: d0_def metadata_loop_function_name init_docblock_def)
  then have f0: "file_block_name st0 = None"
    using n by (simp add: st0_def file_block_name_def)
  have bl: "file_block_name (fst (body_loop (nat max_blocks) st0 1)) = None \<and>
            1 \<le> snd (body_loop (nat max_blocks) st0 1)"
    using body_loop_file_block_name [of 1 "nat max_blocks" st0] f0 by simp
  have p: "parse_shell_file fs file_path max_blocks =
             (int (snd (body_loop (nat max_blocks) st0 1)),
              blocks (fst (body_loop (nat max_blocks) st0 1)))"
    using a n
    by (simp add: parse_shell_file_def Let_def case_prod_beta st0_def d0_def)
  show "1 \<le> fst (parse_shell_file fs file_path max_blocks)"
    using bl by (simp add: p)
  show "function_name (snd (parse_shell_file fs file_path max_blocks) ! 0) = None"
    using bl by (simp add: p file_block_name_def)
next
  assume "fs file_path = None"
  then show "fst (parse_shell_file fs file_path max_blocks) = 0"
    by (simp add: parse_shell_file_def Let_def)
qed

theorem parse_shell_file_file_block_witness:
  "1 \<le> fst (parse_shell_file
              [''a.sh'' \<mapsto> ''# @function foo'' @ [CHR 0x0A] @ ''foo() {'' @ [CHR 0x0A]]
              ''a.sh'' 3) \<and>
   function_name (snd (parse_shell_file
              [''a.sh'' \<mapsto> ''# @function foo'' @ [CHR 0x0A] @ ''foo() {'' @ [CHR 0x0A]]
              ''a.sh'' 3) ! 0) = None \<and>
   fst (parse_shell_file Map.empty ''a.sh'' 3) = 0"
  using parse_shell_file_file_block
          [of "[''a.sh'' \<mapsto> ''# @function foo'' @ [CHR 0x0A] @ ''foo() {'' @ [CHR 0x0A]]"
              "''a.sh''" "''# @function foo'' @ [CHR 0x0A] @ ''foo() {'' @ [CHR 0x0A]" 3]
        parse_shell_file_file_block [of Map.empty "''a.sh''" "[]" 3]
  by simp

text \<open>
  The fields of \<open>docblocks[0]\<close> are not confined to the file level: a tag that comes
  before the first \<open>@function\<close> is stored there. And with \<open>max_blocks\<close> 0 the count is 0
  for a file that can be opened.
\<close>

theorem file_block_carries_tags_counterexample:
  "(let (n, bs) = parse_shell_file
          [''a.sh'' \<mapsto> ''# @arg $1 string the name'' @ [CHR 0x0A] @ ''# @internal'' @ [CHR 0x0A]]
          ''a.sh'' 2
    in (n, map function_name bs, map (map arg_name \<circ> arguments) bs, map is_internal bs)) =
     (1, [None, None], [[''$1''], []], [True, False]) \<and>
   fst (parse_shell_file [''a.sh'' \<mapsto> ''# @internal'' @ [CHR 0x0A]] ''a.sh'' 0) = 0"
proof -
  have whole:
    "(let (n, bs) = parse_shell_file
          [''a.sh'' \<mapsto> ''# @arg $1 string the name'' @ [CHR 0x0A] @ ''# @internal'' @ [CHR 0x0A]]
          ''a.sh'' 2
      in (n, map function_name bs, map (map arg_name \<circ> arguments) bs, map is_internal bs)) =
       (1, [None, None], [[''$1''], []], [True, False])"
    by code_simp
  have none: "fst (parse_shell_file [''a.sh'' \<mapsto> ''# @internal'' @ [CHR 0x0A]] ''a.sh'' 0) = 0"
    by (simp add: parse_shell_file_def)
  from whole none show ?thesis by (rule conjI)
qed


text \<open>
  C6 (as amended). The continuation collector appends, for each following line that is a
  comment, is not a tag line and contains none of the keywords \<open>shellcheck\<close>, \<open>disable\<close>,
  \<open>TODO\<close>, \<open>FIXME\<close>, \<open>XXX\<close>, \<open>HACK\<close>, a newline and the text after the first \<open>#\<close> and the
  whitespace that follows it; it stops at the end of the file or at the first other
  line, and leaves the read position before that line. The lines are lines of text that
  fit the line buffer of 4096 bytes. So the content \<open>A\<close> followed by the comment lines
  \<open># B\<close> and \<open># C\<close> is collected as \<open>A\<close>, \<open>B\<close>, \<open>C\<close> joined by newlines.
\<close>

theorem continuation_collector:
  assumes "\<forall>l\<in>set ls. text_line l \<and> continuation_line l" and "next_line_stops stop"
    and "file_text st = concat (map (\<lambda>l. l @ [CHR 0x0A]) ls) @ stop"
  shows "state_collect_continued_content st initial_content =
           (initial_content @ concat (map (\<lambda>l. CHR 0x0A # comment_text l) ls),
            st\<lparr>file_text := stop\<rparr>)"
proof -
  have "(if ls = [] \<and> stop \<noteq> [] then file_text st else stop) = stop"
    using assms(3) by simp
  then show ?thesis
    using collect_loop_lines [OF assms(1,2), of "file_text st" initial_content]
    by (simp add: state_collect_continued_content_def assms(3) [symmetric])
qed

theorem continuation_collector_witness:
  "state_collect_continued_content
     \<lparr> file_text = ''# B'' @ [CHR 0x0A] @ ''# C'' @ [CHR 0x0A] @ ''foo() {}'' @ [CHR 0x0A],
       current_block = 0, line_number = 1, in_docblock = False, blocks = [init_docblock] \<rparr>
     ''A'' =
   (''A'' @ [CHR 0x0A] @ ''B'' @ [CHR 0x0A] @ ''C'',
    \<lparr> file_text = ''foo() {}'' @ [CHR 0x0A],
      current_block = 0, line_number = 1, in_docblock = False, blocks = [init_docblock] \<rparr>)"
proof -
  have tl: "text_line ''# B''" "text_line ''# C''"
    by (simp_all add: text_line_def MAX_LINE_LENGTH_def)
  have cl: "continuation_line ''# B''" "continuation_line ''# C''"
    by (simp_all add: continuation_line_def is_comment_line_def is_tag_line_def
          static_is_tag_line_def TAG_PREFIX_def is_special_annotation_def skip_spaces_def
          isspace_def strncmp_prefix_def)
  have h1: "\<forall>l\<in>set [''# B'', ''# C'']. text_line l \<and> continuation_line l"
    using tl cl by simp
  have h2: "next_line_stops (''foo() {}'' @ [CHR 0x0A])"
    by (simp add: next_line_stops_def fgets_def MAX_LINE_LENGTH_def c_str_def
          strip_newline_def continuation_line_def is_comment_line_def skip_spaces_def
          isspace_def)
  have ct: "comment_text ''# B'' = ''B''" "comment_text ''# C'' = ''C''"
    by (simp_all add: comment_text_def isspace_def)
  show ?thesis
    using continuation_collector [OF h1 h2,
            of "\<lparr> file_text = ''# B'' @ [CHR 0x0A] @ ''# C'' @ [CHR 0x0A] @ ''foo() {}'' @ [CHR 0x0A],
                  current_block = 0, line_number = 1, in_docblock = False,
                  blocks = [init_docblock] \<rparr>" "''A''"]
    by (simp add: ct)
qed

theorem todo_comment_stops_collector_counterexample:
  "(let (n, bs) = parse_shell_file
          [''a.sh'' \<mapsto> ''# @description A'' @ [CHR 0x0A] @ ''# B'' @ [CHR 0x0A] @
                          ''# C'' @ [CHR 0x0A] @ ''foo() {}'' @ [CHR 0x0A]]
          ''a.sh'' 2
    in (n, map description bs, map function_description bs)) =
     (1, [Some ''A'', None], [None, None]) \<and>
   is_comment_line ''# TODO later'' \<and> \<not> is_tag_line ''# TODO later'' \<and>
   \<not> is_shellcheck_directive ''# TODO later'' \<and>
   state_collect_continued_content
     \<lparr> file_text = ''# TODO later'' @ [CHR 0x0A], current_block = 0, line_number = 1,
       in_docblock = False, blocks = [init_docblock] \<rparr> ''A'' =
   (''A'', \<lparr> file_text = ''# TODO later'' @ [CHR 0x0A], current_block = 0, line_number = 1,
             in_docblock = False, blocks = [init_docblock] \<rparr>)"
proof -
  have whole:
    "(let (n, bs) = parse_shell_file
          [''a.sh'' \<mapsto> ''# @description A'' @ [CHR 0x0A] @ ''# B'' @ [CHR 0x0A] @
                          ''# C'' @ [CHR 0x0A] @ ''foo() {}'' @ [CHR 0x0A]]
          ''a.sh'' 2
      in (n, map description bs, map function_description bs)) =
       (1, [Some ''A'', None], [None, None])"
    by code_simp
  have collector:
    "is_comment_line ''# TODO later'' \<and> \<not> is_tag_line ''# TODO later'' \<and>
     \<not> is_shellcheck_directive ''# TODO later'' \<and>
     state_collect_continued_content
       \<lparr> file_text = ''# TODO later'' @ [CHR 0x0A], current_block = 0, line_number = 1,
         in_docblock = False, blocks = [init_docblock] \<rparr> ''A'' =
     (''A'', \<lparr> file_text = ''# TODO later'' @ [CHR 0x0A], current_block = 0, line_number = 1,
               in_docblock = False, blocks = [init_docblock] \<rparr>)"
    by (simp add: state_collect_continued_content_def collect_loop.simps line_eval)
  from whole collector show ?thesis by (rule conjI)
qed

end
